theory Spec2Isabelle
  imports Main "HOL-Library.Word"
begin

section \<open>The libwebp animation decoder of libavcodec/libwebpdec.c\<close>

text \<open>
  The file holds three callbacks of one codec: \<open>decode_libwebp_init\<close>,
  \<open>decode_libwebp_frame\<close> and \<open>decode_libwebp_close\<close>. They share the private
  context \<open>AnimatedWebPContext\<close> and the codec context \<open>AVCodecContext\<close>. Every
  callback is embedded as a function from the state before the call to the returned
  value and the state after it; \<open>None\<close> stands for undefined behaviour of the C
  code (a null dereference, a signed overflow, an access out of bounds, a double free).
\<close>

type_synonym uint8_t = "8 word"
type_synonym uint32_t = "32 word"

subsection \<open>Integers of the C code\<close>

definition INT_MAX :: int where
  "INT_MAX = 2147483647"

definition INT_MIN :: int where
  "INT_MIN = - 2147483648"

text \<open>Multiplication of two \<open>int\<close>: an overflow is undefined.\<close>

definition int_mul :: "int \<Rightarrow> int \<Rightarrow> int option" where
  "int_mul a b = (if INT_MIN \<le> a * b \<and> a * b \<le> INT_MAX then Some (a * b) else None)"

text \<open>
  \<open>memcpy(dst, src, n)\<close> with \<open>n\<close> an \<open>int\<close> converted to \<open>size_t\<close>: a negative
  \<open>n\<close> becomes a size no object has, and a size beyond either object is an access out
  of bounds. Within bounds the first \<open>n\<close> bytes of \<open>dst\<close> are replaced.
\<close>

definition memcpy :: "uint8_t list \<Rightarrow> uint8_t list \<Rightarrow> int \<Rightarrow> uint8_t list option" where
  "memcpy dst src n =
     (if 0 \<le> n \<and> nat n \<le> length src \<and> nat n \<le> length dst
      then Some (take (nat n) src @ drop (nat n) dst)
      else None)"

subsection \<open>Resources outside the session\<close>

text \<open>
  Modelled from the spec: the reference-counted payload buffer (\<open>AVBufferRef\<close>,
  \<open>av_buffer_ref\<close>, \<open>av_buffer_unref\<close> of libavutil, not part of the file) and
  the ownership of the Frame Source. The spec says the payload is "shared,
  reference-counted; released exactly once" and the Frame Source is "destroyed exactly
  once"; \<open>world\<close> is the ledger that makes both observable: the reference count of
  every buffer and the number of Frame Sources that exist. Taking a reference adds one
  to the count; dropping one through a null pointer does nothing; dropping one of a buffer
  whose count is already 0 is a double free. Allocation failure inside
  \<open>av_buffer_ref\<close> is not modelled.
\<close>

record AVBufferRef =
  buffer :: nat
  data :: "uint8_t list"
  size_buf :: nat

record world =
  refcount :: "nat \<Rightarrow> nat"
  anim_decoders :: nat

definition av_buffer_ref :: "world \<Rightarrow> AVBufferRef \<Rightarrow> world \<times> AVBufferRef" where
  "av_buffer_ref w buf =
     (w\<lparr>refcount := (refcount w)(buffer buf := refcount w (buffer buf) + 1)\<rparr>, buf)"

definition av_buffer_unref ::
  "world \<Rightarrow> AVBufferRef option \<Rightarrow> (world \<times> AVBufferRef option) option" where
  "av_buffer_unref w buf =
     (case buf of
        None \<Rightarrow> Some (w, None)
      | Some b \<Rightarrow>
          if refcount w (buffer b) = 0 then None
          else Some (w\<lparr>refcount := (refcount w)(buffer b := refcount w (buffer b) - 1)\<rparr>,
                     None))"

subsection \<open>The Frame Source\<close>

text \<open>
  Modelled from the spec: the Frame Source contract of section 6 (libwebp's
  \<open>WebPAnimDecoder\<close>, an outside library): \<open>create\<close>, \<open>getInfo\<close>,
  \<open>hasMoreFrames\<close>, \<open>resetToStart\<close>, \<open>getNextFrame\<close> and \<open>destroy\<close>. The
  parser of the container bytes is the parameter \<open>demux\<close>: it yields the canvas
  geometry, the declared loop count and the frames of one pass, each either a composited
  RGBA canvas with its timestamp in milliseconds or \<open>None\<close> for a frame that cannot
  be reconstructed. A Frame Source is that animation and a read position. More frames
  remain while the position is inside the pass; a reset moves it to the start; getting
  the next frame fails at the end of the pass and on a frame that cannot be
  reconstructed, and advances the position otherwise.
\<close>

record WebPData =
  bytes :: "uint8_t list"
  size_data :: nat

datatype WEBP_CSP_MODE = MODE_RGB | MODE_RGBA

record WebPAnimDecoderOptions =
  color_mode :: WEBP_CSP_MODE
  use_threads :: int

record WebPAnimInfo =
  canvas_width :: uint32_t
  canvas_height :: uint32_t
  loop_count :: uint32_t

record webp_anim =
  info :: WebPAnimInfo
  frames :: "(uint8_t list \<times> int) option list"

record WebPAnimDecoder =
  anim :: webp_anim
  next_frame :: nat

definition WebPAnimDecoderNew ::
  "(WebPData \<Rightarrow> webp_anim option) \<Rightarrow> world \<Rightarrow> WebPData \<Rightarrow> WebPAnimDecoderOptions
   \<Rightarrow> world \<times> WebPAnimDecoder option" where
  "WebPAnimDecoderNew demux w webp_data dec_options =
     (case demux webp_data of
        None \<Rightarrow> (w, None)
      | Some a \<Rightarrow> (w\<lparr>anim_decoders := anim_decoders w + 1\<rparr>,
                   Some \<lparr>anim = a, next_frame = 0\<rparr>))"

definition WebPAnimDecoderGetInfo :: "WebPAnimDecoder \<Rightarrow> WebPAnimInfo" where
  "WebPAnimDecoderGetInfo d = info (anim d)"

definition WebPAnimDecoderHasMoreFrames :: "WebPAnimDecoder \<Rightarrow> bool" where
  "WebPAnimDecoderHasMoreFrames d = (next_frame d < length (frames (anim d)))"

definition WebPAnimDecoderReset :: "WebPAnimDecoder \<Rightarrow> WebPAnimDecoder" where
  "WebPAnimDecoderReset d = d\<lparr>next_frame := 0\<rparr>"

definition WebPAnimDecoderGetNext ::
  "WebPAnimDecoder \<Rightarrow> (uint8_t list \<times> int \<times> WebPAnimDecoder) option" where
  "WebPAnimDecoderGetNext d =
     (if \<not> WebPAnimDecoderHasMoreFrames d then None
      else case frames (anim d) ! next_frame d of
             None \<Rightarrow> None
           | Some (frame_rgba, timestamp_ms) \<Rightarrow>
               Some (frame_rgba, timestamp_ms, d\<lparr>next_frame := next_frame d + 1\<rparr>))"

definition WebPAnimDecoderDelete :: "world \<Rightarrow> WebPAnimDecoder \<Rightarrow> world option" where
  "WebPAnimDecoderDelete w d =
     (if anim_decoders w = 0 then None
      else Some (w\<lparr>anim_decoders := anim_decoders w - 1\<rparr>))"

subsection \<open>The data of the host\<close>

datatype AVPixelFormat = AV_PIX_FMT_NONE | AV_PIX_FMT_RGBA

datatype AVPictureType = AV_PICTURE_TYPE_NONE | AV_PICTURE_TYPE_I

type_synonym AVRational = "int \<times> int"

definition av_make_q :: "int \<Rightarrow> int \<Rightarrow> AVRational" where
  "av_make_q num den = (num, den)"

text \<open>
  The fields of \<open>AVPacket\<close> and \<open>AVFrame\<close> that the file reads or writes. The
  three \<open>size\<close> fields of the C structures carry the name of their structure.
\<close>

record AVPacket =
  buf :: "AVBufferRef option"
  size_pkt :: int

record AVFrame =
  width :: int
  height :: int
  format :: AVPixelFormat
  pts :: int
  pkt_dts :: int
  pict_type :: AVPictureType
  data0 :: "uint8_t list"

text \<open>
  The value an entry point returns: \<open>Ret r\<close> for a plain integer, and one
  constructor for each of the host's negative error codes the file uses,
  \<open>AVERROR(EINVAL)\<close>, \<open>AVERROR(ENOMEM)\<close> and \<open>AVERROR_EOF\<close>.
\<close>

datatype retval = Ret int | AVERROR_EINVAL | AVERROR_ENOMEM | AVERROR_EOF

subsection \<open>The contexts\<close>

record AnimatedWebPContext =
  dec_options :: WebPAnimDecoderOptions
  dec :: "WebPAnimDecoder option"
  file_content :: "AVBufferRef option"
  webp_data :: WebPData
  loop_to_send :: uint32_t
  loop_sent :: uint32_t
  ignore_loop :: int

record AVCodecContext =
  priv_data :: AnimatedWebPContext
  width :: int
  height :: int
  coded_width :: int
  coded_height :: int
  pix_fmt :: AVPixelFormat
  pkt_timebase :: AVRational
  framerate :: AVRational

text \<open>
  Everything a callback can touch: the resources, the codec context, and for a decode
  call the frame \<open>p\<close> and the flag \<open>got_frame\<close> the host passes by pointer.
\<close>

record env =
  heap :: world
  avctx :: AVCodecContext
  p :: AVFrame
  got_frame :: int

definition ctx :: "env \<Rightarrow> AnimatedWebPContext" where
  "ctx e = priv_data (avctx e)"

definition set_ctx :: "AnimatedWebPContext \<Rightarrow> env \<Rightarrow> env" where
  "set_ctx s e = e\<lparr>avctx := (avctx e)\<lparr>priv_data := s\<rparr>\<rparr>"

subsection \<open>The option table\<close>

record AVOption =
  name :: string
  help_text :: string
  default_val :: int
  min_val :: int
  max_val :: int

definition options :: "AVOption list" where
  "options =
     [\<lparr>name = ''ignore_loop'', help_text = ''ignore loop setting (netscape extension)'',
       default_val = 1, min_val = 0, max_val = 1\<rparr>]"

text \<open>
  Modelled from the spec: the host allocates the private context zeroed and gives every
  option of the table its default before \<open>decode_libwebp_init\<close> runs ("one boolean
  option, ignore-loop ... default true"). The only option is \<open>ignore_loop\<close>.
\<close>

definition opt_default :: "string \<Rightarrow> int" where
  "opt_default n = (case find (\<lambda>opt. name opt = n) options of
                      None \<Rightarrow> 0 | Some opt \<Rightarrow> default_val opt)"

definition zero_context :: AnimatedWebPContext where
  "zero_context =
     \<lparr>dec_options = \<lparr>color_mode = MODE_RGB, use_threads = 0\<rparr>,
      dec = None, file_content = None,
      webp_data = \<lparr>bytes = [], size_data = 0\<rparr>,
      loop_to_send = 0, loop_sent = 0, ignore_loop = 0\<rparr>"

definition alloc_context :: AnimatedWebPContext where
  "alloc_context = zero_context\<lparr>ignore_loop := opt_default ''ignore_loop''\<rparr>"

subsection \<open>decode_libwebp_init\<close>

text \<open>
  \<open>WebPAnimDecoderOptionsInit\<close> fails only on a library version mismatch; its
  outcome is the parameter \<open>options_init\<close>.
\<close>

definition decode_libwebp_init ::
  "WebPAnimDecoderOptions option \<Rightarrow> env \<Rightarrow> retval \<times> env" where
  "decode_libwebp_init options_init e =
     (let s = ctx e in
      case options_init of
        None \<Rightarrow> (AVERROR_ENOMEM, e)
      | Some opts \<Rightarrow>
          let s1 = s\<lparr>dec_options := opts\<lparr>color_mode := MODE_RGBA, use_threads := 1\<rparr>,
                     file_content := None,
                     loop_sent := 0\<rparr>;
              e1 = set_ctx s1 e
          in (Ret 0,
              e1\<lparr>avctx := (avctx e1)\<lparr>pix_fmt := AV_PIX_FMT_RGBA,
                                       pkt_timebase := av_make_q 1 1000,
                                       framerate := av_make_q 1 0\<rparr>\<rparr>))"

subsection \<open>decode_libwebp_frame\<close>

text \<open>
  Lines 91 to 118, the initialization phase of the first call. The result is the value
  of an early \<open>return\<close> (\<open>Some r\<close>) or \<open>None\<close> when control reaches line 120,
  with the state at that point. \<open>avpkt\<close> is never null here: line 87 has already read
  \<open>avpkt->size\<close>, so the test \<open>!avpkt\<close> of line 92 cannot hold. A packet with
  bytes and no \<open>buf\<close> makes \<open>av_buffer_ref\<close> read through a null pointer. The
  conversion of the canvas size from \<open>uint32_t\<close> to \<open>int\<close> is \<open>sint\<close>.
\<close>

definition lazy_init ::
  "(WebPData \<Rightarrow> webp_anim option) \<Rightarrow> env \<Rightarrow> AVPacket \<Rightarrow> (retval option \<times> env) option" where
  "lazy_init demux e avpkt =
     (let s = ctx e in
      if dec s = None then
        if size_pkt avpkt \<le> 0 then Some (Some AVERROR_EINVAL, e)
        else
          case buf avpkt of
            None \<Rightarrow> None
          | Some pkt_buf \<Rightarrow>
              let (w1, fc) = av_buffer_ref (heap e) pkt_buf;
                  s1 = s\<lparr>file_content := Some fc,
                         webp_data := \<lparr>bytes = data fc, size_data = size_buf fc\<rparr>\<rparr>;
                  (w2, d) = WebPAnimDecoderNew demux w1 (webp_data s1) (dec_options s1);
                  s2 = s1\<lparr>dec := d\<rparr>
              in case d of
                   None \<Rightarrow>
                     (case av_buffer_unref w2 (file_content s2) of
                        None \<Rightarrow> None
                      | Some (w3, fc') \<Rightarrow>
                          Some (Some AVERROR_ENOMEM,
                                set_ctx (s2\<lparr>file_content := fc'\<rparr>) (e\<lparr>heap := w3\<rparr>)))
                 | Some d' \<Rightarrow>
                     let anim_info = WebPAnimDecoderGetInfo d';
                         s3 = s2\<lparr>loop_to_send :=
                                   (if ignore_loop s2 \<noteq> 0 then 1 else loop_count anim_info)\<rparr>;
                         e3 = set_ctx s3 (e\<lparr>heap := w2\<rparr>)
                     in Some (None,
                              e3\<lparr>avctx := (avctx e3)
                                   \<lparr>AVCodecContext.width := sint (canvas_width anim_info),
                                    coded_width := sint (canvas_width anim_info),
                                    AVCodecContext.height := sint (canvas_height anim_info),
                                    coded_height := sint (canvas_height anim_info),
                                    framerate := av_make_q 1 0\<rparr>\<rparr>)
      else Some (None, e))"

text \<open>
  Lines 120 to 123: at the end of a pass the counter of finished passes is incremented
  (a \<open>uint32_t\<close>, so the increment wraps) and the Frame Source is reset.
\<close>

definition loop_boundary :: "WebPAnimDecoder \<Rightarrow> env \<Rightarrow> env" where
  "loop_boundary d e =
     (let s = ctx e in
      if \<not> WebPAnimDecoderHasMoreFrames d
      then set_ctx (s\<lparr>loop_sent := loop_sent s + 1, dec := Some (WebPAnimDecoderReset d)\<rparr>) e
      else e)"

text \<open>
  Lines 125 to 152. \<open>ff_get_buffer\<close> belongs to the host: it is the parameter
  \<open>get_buffer\<close>, which returns an integer and the frame with its buffer.
\<close>

definition emit_frame ::
  "(AVCodecContext \<Rightarrow> AVFrame \<Rightarrow> int \<times> AVFrame) \<Rightarrow> env \<Rightarrow> (retval \<times> env) option" where
  "emit_frame get_buffer e =
     (let s = ctx e in
      if loop_sent s \<ge> loop_to_send s then Some (AVERROR_EOF, e)
      else
        case dec s of
          None \<Rightarrow> None
        | Some d \<Rightarrow>
            (case WebPAnimDecoderGetNext d of
               None \<Rightarrow> Some (AVERROR_EINVAL, e)
             | Some (frame_rgba, timestamp_ms, d') \<Rightarrow>
                 let e1 = set_ctx (s\<lparr>dec := Some d'\<rparr>) e;
                     (ret, p1) = get_buffer (avctx e1) (p e1)
                 in if ret \<noteq> 0 then Some (AVERROR_ENOMEM, e1\<lparr>p := p1\<rparr>)
                    else
                      let p2 = p1\<lparr>AVFrame.width := AVCodecContext.width (avctx e1),
                                  AVFrame.height := AVCodecContext.height (avctx e1),
                                  format := AV_PIX_FMT_RGBA,
                                  pts := timestamp_ms,
                                  pkt_dts := 0,
                                  pict_type := AV_PICTURE_TYPE_I\<rparr>
                      in case int_mul (AVFrame.width p2) (AVFrame.height p2) of
                           None \<Rightarrow> None
                         | Some wh \<Rightarrow>
                             (case int_mul wh 4 of
                                None \<Rightarrow> None
                              | Some n \<Rightarrow>
                                  (case memcpy (data0 p2) frame_rgba n of
                                     None \<Rightarrow> None
                                   | Some pixels \<Rightarrow>
                                       Some (Ret ret,
                                             e1\<lparr>p := p2\<lparr>data0 := pixels\<rparr>,
                                                got_frame := 1\<rparr>)))))"

text \<open>
  The whole callback. Line 87 sets \<open>ret\<close> to the size of the packet, and no path
  reads that value: the only \<open>return ret\<close>, at line 152, comes after line 136 has
  assigned \<open>ret\<close> again. After the initialization phase the session holds a Frame
  Source, so the branches for a null \<open>s->dec\<close> below and in \<open>emit_frame\<close> are
  never taken.
\<close>

definition decode_libwebp_frame ::
  "(WebPData \<Rightarrow> webp_anim option) \<Rightarrow> (AVCodecContext \<Rightarrow> AVFrame \<Rightarrow> int \<times> AVFrame)
   \<Rightarrow> env \<Rightarrow> AVPacket \<Rightarrow> (retval \<times> env) option" where
  "decode_libwebp_frame demux get_buffer e avpkt =
     (let ret = size_pkt avpkt in
      case lazy_init demux e avpkt of
        None \<Rightarrow> None
      | Some (Some r, e1) \<Rightarrow> Some (r, e1)
      | Some (None, e1) \<Rightarrow>
          (case dec (ctx e1) of
             None \<Rightarrow> None
           | Some d \<Rightarrow> emit_frame get_buffer (loop_boundary d e1)))"

subsection \<open>decode_libwebp_close\<close>

definition decode_libwebp_close :: "env \<Rightarrow> (retval \<times> env) option" where
  "decode_libwebp_close e =
     (let s = ctx e in
      case av_buffer_unref (heap e) (file_content s) of
        None \<Rightarrow> None
      | Some (w1, fc) \<Rightarrow>
          let s1 = s\<lparr>file_content := fc\<rparr> in
          (case dec s1 of
             None \<Rightarrow> Some (Ret 0, set_ctx s1 (e\<lparr>heap := w1\<rparr>))
           | Some d \<Rightarrow>
               (case WebPAnimDecoderDelete w1 d of
                  None \<Rightarrow> None
                | Some w2 \<Rightarrow> Some (Ret 0, set_ctx (s1\<lparr>dec := None\<rparr>) (e\<lparr>heap := w2\<rparr>)))))"

subsection \<open>A session of decode calls\<close>

text \<open>
  Modelled from the spec: the Host Adapter of section 6, which calls
  \<open>decode_libwebp_frame\<close> one call at a time on the same session. Each call brings
  its packet, the frame to fill and the outcome of \<open>ff_get_buffer\<close>; the host
  clears \<open>got_frame\<close> before the call and reads the returned value, the flag and
  the frame after it.
\<close>

record call =
  call_pkt :: AVPacket
  call_frame :: AVFrame
  call_get_buffer :: "AVCodecContext \<Rightarrow> AVFrame \<Rightarrow> int \<times> AVFrame"

fun decode_calls ::
  "(WebPData \<Rightarrow> webp_anim option) \<Rightarrow> env \<Rightarrow> call list
   \<Rightarrow> ((retval \<times> int \<times> AVFrame) list \<times> env) option" where
  "decode_calls demux e [] = Some ([], e)"
| "decode_calls demux e (c # cs) =
     (case decode_libwebp_frame demux (call_get_buffer c)
             (e\<lparr>p := call_frame c, got_frame := 0\<rparr>) (call_pkt c) of
        None \<Rightarrow> None
      | Some (r, e1) \<Rightarrow>
          (case decode_calls demux e1 cs of
             None \<Rightarrow> None
           | Some (outs, e2) \<Rightarrow> Some ((r, got_frame e1, p e1) # outs, e2)))"

subsection \<open>Invariants of a session\<close>

text \<open>
  The session holds what it names: a payload reference it keeps is counted in the
  buffer, and a Frame Source it keeps exists.
\<close>

definition owned :: "env \<Rightarrow> bool" where
  "owned e \<longleftrightarrow>
     (case file_content (ctx e) of None \<Rightarrow> True | Some b \<Rightarrow> 0 < refcount (heap e) (buffer b))
     \<and> (dec (ctx e) = None \<or> 0 < anim_decoders (heap e))"

text \<open>The codec context carries the canvas size of the Frame Source the session holds.\<close>

definition canvas_kept :: "env \<Rightarrow> bool" where
  "canvas_kept e \<longleftrightarrow>
     (case dec (ctx e) of
        None \<Rightarrow> True
      | Some d \<Rightarrow>
          AVCodecContext.width (avctx e) = sint (canvas_width (WebPAnimDecoderGetInfo d))
          \<and> AVCodecContext.height (avctx e) = sint (canvas_height (WebPAnimDecoderGetInfo d)))"

subsection \<open>Playing an animation\<close>

text \<open>
  The number of bytes line 149 copies for the canvas of an animation, as the mathematical
  product.
\<close>

definition canvas_bytes :: "webp_anim \<Rightarrow> int" where
  "canvas_bytes a = sint (canvas_width (info a)) * sint (canvas_height (info a)) * 4"

text \<open>
  An animation the session can play to the end: every frame of the pass can be
  reconstructed, there is at least one, the product above is a non-negative \<open>int\<close>,
  and every composited canvas holds that many bytes.
\<close>

definition playable :: "webp_anim \<Rightarrow> (uint8_t list \<times> int) list \<Rightarrow> bool" where
  "playable a fs \<longleftrightarrow>
     frames a = map Some fs \<and> fs \<noteq> []
     \<and> 0 \<le> canvas_bytes a \<and> canvas_bytes a \<le> INT_MAX
     \<and> list_all (\<lambda>fr. nat (canvas_bytes a) \<le> length (fst fr)) fs"

text \<open>A call whose host always hands out a buffer, of at least \<open>n\<close> bytes.\<close>

definition host_ok :: "nat \<Rightarrow> call \<Rightarrow> bool" where
  "host_ok n c \<longleftrightarrow>
     (\<forall>a f. fst (call_get_buffer c a f) = 0 \<and> n \<le> length (data0 (snd (call_get_buffer c a f))))"

text \<open>
  The session is inside the animation \<open>a\<close>: the Frame Source stands at frame
  \<open>i\<close> of the pass, \<open>j\<close> passes are finished, \<open>T\<close> are to be sent, and the
  codec context carries the canvas size.
\<close>

definition playing :: "webp_anim \<Rightarrow> uint32_t \<Rightarrow> nat \<Rightarrow> nat \<Rightarrow> env \<Rightarrow> bool" where
  "playing a T i j e \<longleftrightarrow>
     dec (ctx e) = Some \<lparr>anim = a, next_frame = i\<rparr>
     \<and> loop_to_send (ctx e) = T \<and> loop_sent (ctx e) = of_nat j
     \<and> AVCodecContext.width (avctx e) = sint (canvas_width (info a))
     \<and> AVCodecContext.height (avctx e) = sint (canvas_height (info a))"

text \<open>
  What the host sees of one call: the returned value, the flag, the timestamp and the
  first \<open>n\<close> bytes of the picture; and what it should see for a frame of the pass.
\<close>

definition sent :: "nat \<Rightarrow> retval \<times> int \<times> AVFrame \<Rightarrow> retval \<times> int \<times> int \<times> uint8_t list" where
  "sent n out = (case out of (r, g, f) \<Rightarrow> (r, g, pts f, take n (data0 f)))"

definition shown :: "nat \<Rightarrow> uint8_t list \<times> int \<Rightarrow> retval \<times> int \<times> int \<times> uint8_t list" where
  "shown n fr = (case fr of (frame_rgba, timestamp_ms) \<Rightarrow> (Ret 0, 1, timestamp_ms, take n frame_rgba))"


subsection \<open>A concrete session\<close>

text \<open>
  An animation of two frames on a canvas of one pixel and one whose only frame cannot
  be reconstructed, the payload buffer that holds either, a host whose buffers hold
  eight bytes and one that has none, and a session that has been opened but has decoded
  nothing.
\<close>

definition two_pictures :: "(uint8_t list \<times> int) list" where
  "two_pictures = [([1, 2, 3, 4], 0), ([5, 6, 7, 8], 100)]"

definition two_frames :: "uint32_t \<Rightarrow> webp_anim" where
  "two_frames L =
     \<lparr>info = \<lparr>canvas_width = 1, canvas_height = 1, loop_count = L\<rparr>,
      frames = map Some two_pictures\<rparr>"

definition broken_frame :: webp_anim where
  "broken_frame =
     \<lparr>info = \<lparr>canvas_width = 1, canvas_height = 1, loop_count = 1\<rparr>,
      frames = [None]\<rparr>"

definition payload :: AVBufferRef where
  "payload = \<lparr>buffer = 7, data = [82, 73, 70, 70], size_buf = 4\<rparr>"

definition blank :: AVFrame where
  "blank = \<lparr>AVFrame.width = 0, AVFrame.height = 0, format = AV_PIX_FMT_NONE, pts = 0,
            pkt_dts = 0, pict_type = AV_PICTURE_TYPE_NONE, data0 = []\<rparr>"

definition host_buffer :: "AVCodecContext \<Rightarrow> AVFrame \<Rightarrow> int \<times> AVFrame" where
  "host_buffer a f = (0, f\<lparr>data0 := replicate 8 0\<rparr>)"

definition no_buffer :: "AVCodecContext \<Rightarrow> AVFrame \<Rightarrow> int \<times> AVFrame" where
  "no_buffer a f = (- 12, f)"

definition first_packet :: AVPacket where
  "first_packet = \<lparr>buf = Some payload, size_pkt = 4\<rparr>"

definition empty_packet :: AVPacket where
  "empty_packet = \<lparr>buf = None, size_pkt = 0\<rparr>"

definition first_call :: call where
  "first_call = \<lparr>call_pkt = first_packet, call_frame = blank, call_get_buffer = host_buffer\<rparr>"

definition next_call :: call where
  "next_call = \<lparr>call_pkt = empty_packet, call_frame = blank, call_get_buffer = host_buffer\<rparr>"

definition opened :: "int \<Rightarrow> env" where
  "opened ig =
     snd (decode_libwebp_init (Some \<lparr>color_mode = MODE_RGBA, use_threads = 0\<rparr>)
       \<lparr>heap = \<lparr>refcount = (\<lambda>_. 0)(7 := 1), anim_decoders = 0\<rparr>,
        avctx = \<lparr>priv_data = alloc_context\<lparr>ignore_loop := ig\<rparr>,
                 AVCodecContext.width = 0, AVCodecContext.height = 0,
                 coded_width = 0, coded_height = 0,
                 pix_fmt = AV_PIX_FMT_NONE, pkt_timebase = (0, 1), framerate = (0, 1)\<rparr>,
        p = blank, got_frame = 0\<rparr>)"

section \<open>Properties\<close>

subsection \<open>The initialization phase\<close>

lemma ctx_set_ctx [simp]: "ctx (set_ctx s e) = s"
  by (simp add: ctx_def set_ctx_def)

lemma set_ctx_fields [simp]:
  "heap (set_ctx s e) = heap e" "p (set_ctx s e) = p e" "got_frame (set_ctx s e) = got_frame e"
  "AVCodecContext.width (avctx (set_ctx s e)) = AVCodecContext.width (avctx e)"
  "AVCodecContext.height (avctx (set_ctx s e)) = AVCodecContext.height (avctx e)"
  by (simp_all add: set_ctx_def)

lemma ctx_updates [simp]:
  "ctx (e\<lparr>heap := w\<rparr>) = ctx e" "ctx (e\<lparr>p := f\<rparr>) = ctx e" "ctx (e\<lparr>got_frame := g\<rparr>) = ctx e"
  by (simp_all add: ctx_def)

lemma set_ctx_ctx [simp]: "set_ctx (ctx e) e = e"
  by (simp add: ctx_def set_ctx_def)

lemma lazy_init_active:
  "dec (ctx e) = Some d \<Longrightarrow> lazy_init demux e avpkt = Some (None, e)"
  by (simp add: lazy_init_def)

lemma lazy_init_empty:
  "dec (ctx e) = None \<Longrightarrow> size_pkt avpkt \<le> 0 \<Longrightarrow>
   lazy_init demux e avpkt = Some (Some AVERROR_EINVAL, e)"
  by (simp add: lazy_init_def)

lemma lazy_init_no_buf:
  "dec (ctx e) = None \<Longrightarrow> 0 < size_pkt avpkt \<Longrightarrow> buf avpkt = None \<Longrightarrow>
   lazy_init demux e avpkt = None"
  by (simp add: lazy_init_def)

lemma lazy_init_fails:
  assumes "dec (ctx e) = None" and "0 < size_pkt avpkt" and "buf avpkt = Some b"
    and "demux \<lparr>bytes = data b, size_data = size_buf b\<rparr> = None"
  shows "lazy_init demux e avpkt =
           Some (Some AVERROR_ENOMEM,
                 set_ctx ((ctx e)\<lparr>file_content := None,
                                  webp_data := \<lparr>bytes = data b, size_data = size_buf b\<rparr>\<rparr>) e)"
  using assms
  by (simp add: lazy_init_def av_buffer_ref_def WebPAnimDecoderNew_def av_buffer_unref_def
      set_ctx_def Let_def)

text \<open>What the initialization phase leaves when it constructs the Frame Source.\<close>

lemma lazy_init_constructs:
  assumes "dec (ctx e) = None" and "0 < size_pkt avpkt" and "buf avpkt = Some b"
    and "demux \<lparr>bytes = data b, size_data = size_buf b\<rparr> = Some a"
  shows "\<exists>e1. lazy_init demux e avpkt = Some (None, e1)
           \<and> dec (ctx e1) = Some \<lparr>anim = a, next_frame = 0\<rparr>
           \<and> file_content (ctx e1) = Some b
           \<and> loop_to_send (ctx e1) = (if ignore_loop (ctx e) \<noteq> 0 then 1 else loop_count (info a))
           \<and> loop_sent (ctx e1) = loop_sent (ctx e)
           \<and> ignore_loop (ctx e1) = ignore_loop (ctx e)
           \<and> AVCodecContext.width (avctx e1) = sint (canvas_width (info a))
           \<and> AVCodecContext.height (avctx e1) = sint (canvas_height (info a))
           \<and> refcount (heap e1) = (refcount (heap e))(buffer b := refcount (heap e) (buffer b) + 1)
           \<and> anim_decoders (heap e1) = anim_decoders (heap e) + 1
           \<and> p e1 = p e \<and> got_frame e1 = got_frame e"
  using assms
  by (simp add: lazy_init_def av_buffer_ref_def WebPAnimDecoderNew_def WebPAnimDecoderGetInfo_def
      set_ctx_def ctx_def Let_def)

text \<open>Every way through the initialization phase.\<close>

lemma lazy_init_cases:
  assumes "lazy_init demux e avpkt = Some (r, e1)"
  obtains
    (active) d where "dec (ctx e) = Some d" "r = None" "e1 = e"
  | (empty) "dec (ctx e) = None" "size_pkt avpkt \<le> 0" "r = Some AVERROR_EINVAL" "e1 = e"
  | (fails) b where "dec (ctx e) = None" "0 < size_pkt avpkt" "buf avpkt = Some b"
      "demux \<lparr>bytes = data b, size_data = size_buf b\<rparr> = None"
      "r = Some AVERROR_ENOMEM"
      "e1 = set_ctx ((ctx e)\<lparr>file_content := None,
                                  webp_data := \<lparr>bytes = data b, size_data = size_buf b\<rparr>\<rparr>) e"
  | (constructs) b a where "dec (ctx e) = None" "0 < size_pkt avpkt" "buf avpkt = Some b"
      "demux \<lparr>bytes = data b, size_data = size_buf b\<rparr> = Some a" "r = None"
      "dec (ctx e1) = Some \<lparr>anim = a, next_frame = 0\<rparr>"
      "file_content (ctx e1) = Some b"
      "loop_to_send (ctx e1) = (if ignore_loop (ctx e) \<noteq> 0 then 1 else loop_count (info a))"
      "loop_sent (ctx e1) = loop_sent (ctx e)"
      "ignore_loop (ctx e1) = ignore_loop (ctx e)"
      "AVCodecContext.width (avctx e1) = sint (canvas_width (info a))"
      "AVCodecContext.height (avctx e1) = sint (canvas_height (info a))"
      "refcount (heap e1) = (refcount (heap e))(buffer b := refcount (heap e) (buffer b) + 1)"
      "anim_decoders (heap e1) = anim_decoders (heap e) + 1"
      "p e1 = p e" "got_frame e1 = got_frame e"
proof (cases "dec (ctx e)")
  case (Some d)
  with assms have "r = None" and "e1 = e"
    by (simp_all add: lazy_init_active)
  with Some show ?thesis by (rule active)
next
  case None
  show ?thesis
  proof (cases "size_pkt avpkt \<le> 0")
    case True
    with None assms have "r = Some AVERROR_EINVAL" and "e1 = e"
      by (simp_all add: lazy_init_empty)
    with None True show ?thesis by (rule empty)
  next
    case False
    then have pos: "0 < size_pkt avpkt" by simp
    show ?thesis
    proof (cases "buf avpkt")
      case nobuf: None
      with None pos have "lazy_init demux e avpkt = None"
        by (rule lazy_init_no_buf)
      with assms show ?thesis by simp
    next
      case (Some b)
      show ?thesis
      proof (cases "demux \<lparr>bytes = data b, size_data = size_buf b\<rparr>")
        case nodec: None
        from None pos Some nodec
        have "lazy_init demux e avpkt =
                Some (Some AVERROR_ENOMEM,
                      set_ctx ((ctx e)\<lparr>file_content := None,
                        webp_data := \<lparr>bytes = data b, size_data = size_buf b\<rparr>\<rparr>) e)"
          by (rule lazy_init_fails)
        with assms have "r = Some AVERROR_ENOMEM"
          and "e1 = set_ctx ((ctx e)\<lparr>file_content := None,
                   webp_data := \<lparr>bytes = data b, size_data = size_buf b\<rparr>\<rparr>) e"
          by simp_all
        with None pos Some nodec show ?thesis by (rule fails)
      next
        case (Some a)
        from None pos \<open>buf avpkt = Some b\<close> Some
        obtain e2 where e2: "lazy_init demux e avpkt = Some (None, e2)"
            "dec (ctx e2) = Some \<lparr>anim = a, next_frame = 0\<rparr>"
            "file_content (ctx e2) = Some b"
            "loop_to_send (ctx e2) = (if ignore_loop (ctx e) \<noteq> 0 then 1 else loop_count (info a))"
            "loop_sent (ctx e2) = loop_sent (ctx e)"
            "ignore_loop (ctx e2) = ignore_loop (ctx e)"
            "AVCodecContext.width (avctx e2) = sint (canvas_width (info a))"
            "AVCodecContext.height (avctx e2) = sint (canvas_height (info a))"
            "refcount (heap e2) = (refcount (heap e))(buffer b := refcount (heap e) (buffer b) + 1)"
            "anim_decoders (heap e2) = anim_decoders (heap e) + 1"
            "p e2 = p e" "got_frame e2 = got_frame e"
          using lazy_init_constructs [of e avpkt b demux a] by blast
        from e2(1) assms have "r = None" and "e2 = e1" by simp_all
        with None pos \<open>buf avpkt = Some b\<close> Some e2 show ?thesis
          using constructs [of b a] by blast
      qed
    qed
  qed
qed


lemma loop_boundary_more:
  "WebPAnimDecoderHasMoreFrames d \<Longrightarrow> loop_boundary d e = e"
  by (simp add: loop_boundary_def Let_def)

lemma loop_boundary_wrap:
  "\<not> WebPAnimDecoderHasMoreFrames d \<Longrightarrow>
   loop_boundary d e =
     set_ctx ((ctx e)\<lparr>loop_sent := loop_sent (ctx e) + 1,
                      dec := Some (WebPAnimDecoderReset d)\<rparr>) e"
  by (simp add: loop_boundary_def Let_def)

lemma loop_boundary_keeps:
  "heap (loop_boundary d e) = heap e" "p (loop_boundary d e) = p e"
  "got_frame (loop_boundary d e) = got_frame e"
  "AVCodecContext.width (avctx (loop_boundary d e)) = AVCodecContext.width (avctx e)"
  "AVCodecContext.height (avctx (loop_boundary d e)) = AVCodecContext.height (avctx e)"
  "loop_to_send (ctx (loop_boundary d e)) = loop_to_send (ctx e)"
  "file_content (ctx (loop_boundary d e)) = file_content (ctx e)"
  "ignore_loop (ctx (loop_boundary d e)) = ignore_loop (ctx e)"
  by (simp_all add: loop_boundary_def Let_def)

lemma loop_boundary_dec:
  "dec (ctx e) = Some d \<Longrightarrow>
   \<exists>d'. dec (ctx (loop_boundary d e)) = Some d' \<and> anim d' = anim d
        \<and> WebPAnimDecoderHasMoreFrames d' = (frames (anim d) \<noteq> [])"
  by (auto simp add: loop_boundary_def Let_def WebPAnimDecoderReset_def WebPAnimDecoderHasMoreFrames_def)

lemma emit_frame_eof:
  "loop_to_send (ctx e) \<le> loop_sent (ctx e) \<Longrightarrow> emit_frame get_buffer e = Some (AVERROR_EOF, e)"
  by (simp add: emit_frame_def Let_def)

lemma emit_frame_no_frame:
  "\<not> loop_to_send (ctx e) \<le> loop_sent (ctx e) \<Longrightarrow> dec (ctx e) = Some d \<Longrightarrow>
   WebPAnimDecoderGetNext d = None \<Longrightarrow> emit_frame get_buffer e = Some (AVERROR_EINVAL, e)"
  by (simp add: emit_frame_def Let_def)

lemma emit_frame_no_buffer:
  "\<not> loop_to_send (ctx e) \<le> loop_sent (ctx e) \<Longrightarrow> dec (ctx e) = Some d \<Longrightarrow>
   WebPAnimDecoderGetNext d = Some (frame_rgba, timestamp_ms, d') \<Longrightarrow>
   e1 = set_ctx ((ctx e)\<lparr>dec := Some d'\<rparr>) e \<Longrightarrow>
   fst (get_buffer (avctx e1) (p e)) \<noteq> 0 \<Longrightarrow>
   emit_frame get_buffer e = Some (AVERROR_ENOMEM, e1\<lparr>p := snd (get_buffer (avctx e1) (p e))\<rparr>)"
  by (simp add: emit_frame_def Let_def split_beta)

lemma emit_frame_Ret:
  assumes "emit_frame get_buffer e = Some (Ret r, e')"
  shows "\<exists>d frame_rgba timestamp_ms d' e1 p1 n.
           dec (ctx e) = Some d
         \<and> \<not> loop_to_send (ctx e) \<le> loop_sent (ctx e)
         \<and> WebPAnimDecoderGetNext d = Some (frame_rgba, timestamp_ms, d')
         \<and> e1 = set_ctx ((ctx e)\<lparr>dec := Some d'\<rparr>) e
         \<and> get_buffer (avctx e1) (p e) = (r, p1) \<and> r = 0
         \<and> n = AVCodecContext.width (avctx e) * AVCodecContext.height (avctx e) * 4
         \<and> 0 \<le> n \<and> n \<le> INT_MAX \<and> nat n \<le> length frame_rgba \<and> nat n \<le> length (data0 p1)
         \<and> e' = e1\<lparr>p := p1\<lparr>AVFrame.width := AVCodecContext.width (avctx e),
                               AVFrame.height := AVCodecContext.height (avctx e),
                               format := AV_PIX_FMT_RGBA,
                               pts := timestamp_ms,
                               pkt_dts := 0,
                               pict_type := AV_PICTURE_TYPE_I,
                               data0 := take (nat n) frame_rgba @ drop (nat n) (data0 p1)\<rparr>,
                        got_frame := 1\<rparr>"
  using assms
  by (auto simp add: emit_frame_def Let_def int_mul_def memcpy_def
      split: if_splits option.splits prod.splits)


lemma lazy_init_keeps:
  assumes "lazy_init demux e avpkt = Some (r, e1)"
  shows "p e1 = p e \<and> got_frame e1 = got_frame e
       \<and> ignore_loop (ctx e1) = ignore_loop (ctx e)
       \<and> loop_sent (ctx e1) = loop_sent (ctx e)"
  using assms by (cases rule: lazy_init_cases) simp_all

lemma step_active:
  "dec (ctx e) = Some d \<Longrightarrow>
   decode_libwebp_frame demux get_buffer e avpkt = emit_frame get_buffer (loop_boundary d e)"
  by (simp add: decode_libwebp_frame_def lazy_init_active)

lemma step_through:
  "lazy_init demux e avpkt = Some (None, e1) \<Longrightarrow> dec (ctx e1) = Some d \<Longrightarrow>
   decode_libwebp_frame demux get_buffer e avpkt = emit_frame get_buffer (loop_boundary d e1)"
  by (simp add: decode_libwebp_frame_def)

lemma step_early:
  "lazy_init demux e avpkt = Some (Some r, e1) \<Longrightarrow>
   decode_libwebp_frame demux get_buffer e avpkt = Some (r, e1)"
  by (simp add: decode_libwebp_frame_def)

lemma step_cases:
  assumes "decode_libwebp_frame demux get_buffer e avpkt = Some (r, e')"
  obtains
    (early) "lazy_init demux e avpkt = Some (Some r, e')"
  | (through) e1 d where "lazy_init demux e avpkt = Some (None, e1)" "dec (ctx e1) = Some d"
      "emit_frame get_buffer (loop_boundary d e1) = Some (r, e')"
  using assms
  by (auto simp add: decode_libwebp_frame_def split: option.splits)

subsection \<open>The first call\<close>

text \<open>
  C4: a first call whose packet has no bytes returns \<open>AVERROR(EINVAL)\<close> and
  leaves everything as it was: no Frame Source is constructed and no field of the session
  changes.
\<close>

theorem first_call_empty_input:
  assumes "dec (ctx e) = None" and "size_pkt avpkt \<le> 0"
  shows "decode_libwebp_frame demux get_buffer e avpkt = Some (AVERROR_EINVAL, e)"
  using assms by (simp add: step_early lazy_init_empty)

theorem first_call_empty_input_witness:
  "dec (ctx (opened 1)) = None \<and> size_pkt empty_packet \<le> 0
   \<and> decode_libwebp_frame (\<lambda>_. None) host_buffer (opened 1) empty_packet =
         Some (AVERROR_EINVAL, opened 1)"
proof -
  have h1: "dec (ctx (opened 1)) = None"
    by (simp add: opened_def decode_libwebp_init_def ctx_def set_ctx_def alloc_context_def
        zero_context_def Let_def)
  have h2: "size_pkt empty_packet \<le> 0"
    by (simp add: empty_packet_def)
  from first_call_empty_input [OF h1 h2, of "\<lambda>_. None" host_buffer] h1 h2
  show ?thesis by simp
qed

text \<open>
  C5: when the Frame Source cannot be constructed on the first call, the call returns
  \<open>AVERROR(ENOMEM)\<close>; the reference taken on the payload is given back, so the
  reference counts are those of before the call, and the session holds neither a Frame
  Source nor a payload reference. Only the view \<open>webp_data\<close>, which owns nothing,
  keeps what line 100 and 101 wrote.
\<close>

theorem construction_failure_releases_payload:
  assumes "dec (ctx e) = None" and "0 < size_pkt avpkt" and "buf avpkt = Some b"
    and "demux \<lparr>bytes = data b, size_data = size_buf b\<rparr> = None"
  shows "\<exists>e'. decode_libwebp_frame demux get_buffer e avpkt = Some (AVERROR_ENOMEM, e')
           \<and> dec (ctx e') = None \<and> file_content (ctx e') = None
           \<and> heap e' = heap e \<and> p e' = p e \<and> got_frame e' = got_frame e
           \<and> e' = set_ctx ((ctx e)\<lparr>file_content := None,
                     webp_data := \<lparr>bytes = data b, size_data = size_buf b\<rparr>\<rparr>) e"
  using assms by (simp add: step_early lazy_init_fails)


theorem construction_failure_releases_payload_witness:
  "dec (ctx (opened 1)) = None \<and> 0 < size_pkt first_packet \<and> buf first_packet = Some payload
   \<and> (\<exists>e'. decode_libwebp_frame (\<lambda>_. None) host_buffer (opened 1) first_packet =
              Some (AVERROR_ENOMEM, e')
          \<and> dec (ctx e') = None \<and> file_content (ctx e') = None
          \<and> heap e' = heap (opened 1))"
proof -
  have h1: "dec (ctx (opened 1)) = None"
    by (simp add: opened_def decode_libwebp_init_def ctx_def set_ctx_def alloc_context_def
        zero_context_def Let_def)
  have h2: "0 < size_pkt first_packet" and h3: "buf first_packet = Some payload"
    by (simp_all add: first_packet_def)
  have h4: "(\<lambda>_. None) \<lparr>bytes = data payload, size_data = size_buf payload\<rparr>
              = (None :: webp_anim option)"
    by simp
  from construction_failure_releases_payload [OF h1 h2 h3 h4, of host_buffer] h1 h2 h3
  show ?thesis by blast
qed

subsection \<open>Playing passes\<close>

lemma emit_frame_ok:
  assumes "\<not> loop_to_send (ctx e) \<le> loop_sent (ctx e)" and "dec (ctx e) = Some d"
    and "WebPAnimDecoderGetNext d = Some (frame_rgba, timestamp_ms, d')"
    and "e1 = set_ctx ((ctx e)\<lparr>dec := Some d'\<rparr>) e"
    and "get_buffer (avctx e1) (p e) = (0, p1)"
    and "n = AVCodecContext.width (avctx e) * AVCodecContext.height (avctx e) * 4"
    and "0 \<le> n" and "n \<le> INT_MAX"
    and "nat n \<le> length frame_rgba" and "nat n \<le> length (data0 p1)"
  shows "emit_frame get_buffer e =
           Some (Ret 0,
                 e1\<lparr>p := p1\<lparr>AVFrame.width := AVCodecContext.width (avctx e),
                               AVFrame.height := AVCodecContext.height (avctx e),
                               format := AV_PIX_FMT_RGBA,
                               pts := timestamp_ms,
                               pkt_dts := 0,
                               pict_type := AV_PICTURE_TYPE_I,
                               data0 := take (nat n) frame_rgba @ drop (nat n) (data0 p1)\<rparr>,
                     got_frame := 1\<rparr>)"
proof -
  let ?w = "AVCodecContext.width (avctx e)" and ?h = "AVCodecContext.height (avctx e)"
  define wh where "wh = ?w * ?h"
  with assms(6-8) have n: "n = wh * 4" "0 \<le> wh * 4" "wh * 4 \<le> INT_MAX"
    by simp_all
  then have "0 \<le> wh" and "wh \<le> INT_MAX"
    by (simp_all add: INT_MAX_def)
  then have "int_mul ?w ?h = Some wh"
    unfolding wh_def by (simp add: int_mul_def INT_MIN_def)
  then have m1: "int_mul ?w ?h = Some (?w * ?h)"
    by (simp add: wh_def)
  from n have "int_mul wh 4 = Some n"
    by (simp add: int_mul_def INT_MIN_def)
  then have m2: "int_mul (?w * ?h) 4 = Some n"
    by (simp add: wh_def)
  from assms(7,9,10) have m3: "memcpy (data0 p1) frame_rgba n
      = Some (take (nat n) frame_rgba @ drop (nat n) (data0 p1))"
    by (simp add: memcpy_def)
  show ?thesis
    using assms(1-5) m1 m2 m3
    by (simp add: emit_frame_def Let_def)
qed

lemma unat_of_nat32: "j < 2 ^ 32 \<Longrightarrow> unat (of_nat j :: uint32_t) = j"
  by (simp add: unat_of_nat)

lemma T_le_sent: "j < 2 ^ 32 \<Longrightarrow> (T \<le> (of_nat j :: uint32_t)) = (unat T \<le> j)"
  by (simp add: word_le_nat_alt unat_of_nat32)

lemma unat_lt32: "unat (T :: uint32_t) < 2 ^ 32"
  using unsigned_less [of T, where 'a = nat] by simp


lemma playing_call [simp]:
  "playing a T i j (e\<lparr>p := f, got_frame := g\<rparr>) = playing a T i j e"
  by (simp add: playing_def ctx_def)

lemma emit_playing:
  assumes pl: "playing a T i j e"
    and fr: "frames a = map Some fs" "i < length fs" "fs ! i = (rgba, ts)"
    and j: "j < unat T"
    and n: "0 \<le> canvas_bytes a" "canvas_bytes a \<le> INT_MAX" "nat (canvas_bytes a) \<le> length rgba"
    and gb: "\<And>c f. fst (get_buffer c f) = 0
               \<and> nat (canvas_bytes a) \<le> length (data0 (snd (get_buffer c f)))"
  shows "\<exists>e'. emit_frame get_buffer e = Some (Ret 0, e')
           \<and> playing a T (Suc i) j e'
           \<and> sent (nat (canvas_bytes a)) (Ret 0, got_frame e', p e')
               = (Ret 0, 1, ts, take (nat (canvas_bytes a)) rgba)"
proof -
  let ?d = "\<lparr>anim = a, next_frame = i\<rparr>" and ?d' = "\<lparr>anim = a, next_frame = Suc i\<rparr>"
  let ?e1 = "set_ctx ((ctx e)\<lparr>dec := Some ?d'\<rparr>) e"
  let ?n = "canvas_bytes a"
  obtain p1 where p1: "get_buffer (avctx ?e1) (p e) = (0, p1)" "nat ?n \<le> length (data0 p1)"
    using gb [of "avctx ?e1" "p e"] by (cases "get_buffer (avctx ?e1) (p e)") auto
  from j have j32: "j < 2 ^ 32"
    using unat_lt32 [of T] by simp
  from pl j j32 have not_eof: "\<not> loop_to_send (ctx e) \<le> loop_sent (ctx e)"
    by (simp add: playing_def T_le_sent)
  from pl have d: "dec (ctx e) = Some ?d"
    by (simp add: playing_def)
  from fr have nxt: "WebPAnimDecoderGetNext ?d = Some (rgba, ts, ?d')"
    by (simp add: WebPAnimDecoderGetNext_def WebPAnimDecoderHasMoreFrames_def)
  from pl have wh: "?n = AVCodecContext.width (avctx e) * AVCodecContext.height (avctx e) * 4"
    by (simp add: playing_def canvas_bytes_def)
  note ok = emit_frame_ok [where get_buffer = get_buffer and e = e,
      OF not_eof d nxt refl p1(1) wh n(1) n(2) n(3) p1(2)]
  from pl have "playing a T (Suc i) j ?e1"
    by (simp add: playing_def)
  with ok n(3) show ?thesis
    by (simp add: sent_def playing_def ctx_def)
qed

lemma step_in_pass:
  assumes "playing a T i j e"
    and "frames a = map Some fs" "i < length fs" "fs ! i = (rgba, ts)"
    and "j < unat T"
    and "0 \<le> canvas_bytes a" "canvas_bytes a \<le> INT_MAX" "nat (canvas_bytes a) \<le> length rgba"
    and "\<And>c f. fst (get_buffer c f) = 0
               \<and> nat (canvas_bytes a) \<le> length (data0 (snd (get_buffer c f)))"
  shows "\<exists>e'. decode_libwebp_frame demux get_buffer e avpkt = Some (Ret 0, e')
           \<and> playing a T (Suc i) j e'
           \<and> sent (nat (canvas_bytes a)) (Ret 0, got_frame e', p e')
               = (Ret 0, 1, ts, take (nat (canvas_bytes a)) rgba)"
proof -
  let ?d = "\<lparr>anim = a, next_frame = i\<rparr>"
  from assms(1) have d: "dec (ctx e) = Some ?d"
    by (simp add: playing_def)
  from assms(2,3) have "WebPAnimDecoderHasMoreFrames ?d"
    by (simp add: WebPAnimDecoderHasMoreFrames_def)
  then have "decode_libwebp_frame demux get_buffer e avpkt = emit_frame get_buffer e"
    using d by (simp add: step_active loop_boundary_more)
  with emit_playing [OF assms] show ?thesis by simp
qed

lemma step_wrap:
  assumes pl: "playing a T (length fs) j e"
    and fr: "frames a = map Some fs" "fs \<noteq> []" "fs ! 0 = (rgba, ts)"
    and j: "Suc j < unat T"
    and n: "0 \<le> canvas_bytes a" "canvas_bytes a \<le> INT_MAX" "nat (canvas_bytes a) \<le> length rgba"
    and gb: "\<And>c f. fst (get_buffer c f) = 0
               \<and> nat (canvas_bytes a) \<le> length (data0 (snd (get_buffer c f)))"
  shows "\<exists>e'. decode_libwebp_frame demux get_buffer e avpkt = Some (Ret 0, e')
           \<and> playing a T (Suc 0) (Suc j) e'
           \<and> sent (nat (canvas_bytes a)) (Ret 0, got_frame e', p e')
               = (Ret 0, 1, ts, take (nat (canvas_bytes a)) rgba)"
proof -
  let ?d = "\<lparr>anim = a, next_frame = length fs\<rparr>"
  let ?e = "loop_boundary ?d e"
  from pl have d: "dec (ctx e) = Some ?d"
    by (simp add: playing_def)
  from fr(1) have "\<not> WebPAnimDecoderHasMoreFrames ?d"
    by (simp add: WebPAnimDecoderHasMoreFrames_def)
  then have e: "?e = set_ctx ((ctx e)\<lparr>loop_sent := loop_sent (ctx e) + 1,
                      dec := Some (WebPAnimDecoderReset ?d)\<rparr>) e"
    by (rule loop_boundary_wrap)
  with pl have pl': "playing a T 0 (Suc j) ?e"
    by (simp add: playing_def WebPAnimDecoderReset_def)
  from fr(2) have "0 < length fs" by simp
  from emit_playing [OF pl' fr(1) this fr(3) j n gb]
  show ?thesis using d by (simp add: step_active)
qed

lemma step_end:
  assumes pl: "playing a T (length fs) j e"
    and fr: "frames a = map Some fs"
    and j: "Suc j = unat T"
  shows "\<exists>e'. decode_libwebp_frame demux get_buffer e avpkt = Some (AVERROR_EOF, e')
           \<and> got_frame e' = got_frame e \<and> p e' = p e"
proof -
  let ?d = "\<lparr>anim = a, next_frame = length fs\<rparr>"
  let ?e = "loop_boundary ?d e"
  from pl have d: "dec (ctx e) = Some ?d"
    by (simp add: playing_def)
  from fr(1) have "\<not> WebPAnimDecoderHasMoreFrames ?d"
    by (simp add: WebPAnimDecoderHasMoreFrames_def)
  then have e: "?e = set_ctx ((ctx e)\<lparr>loop_sent := loop_sent (ctx e) + 1,
                      dec := Some (WebPAnimDecoderReset ?d)\<rparr>) e"
    by (rule loop_boundary_wrap)
  from j have "Suc j < 2 ^ 32"
    using unat_lt32 [of T] by simp
  moreover from pl e have "loop_sent (ctx ?e) = of_nat (Suc j)" and "loop_to_send (ctx ?e) = T"
    by (simp_all add: playing_def)
  ultimately have "loop_to_send (ctx ?e) \<le> loop_sent (ctx ?e)"
    using j by (simp only: T_le_sent)
  then have "emit_frame get_buffer ?e = Some (AVERROR_EOF, ?e)"
    by (rule emit_frame_eof)
  with d show ?thesis
    by (simp add: step_active loop_boundary_keeps)
qed


lemma decode_calls_append:
  "decode_calls demux e (xs @ ys) =
     (case decode_calls demux e xs of
        None \<Rightarrow> None
      | Some (o1, e1) \<Rightarrow>
          (case decode_calls demux e1 ys of
             None \<Rightarrow> None
           | Some (o2, e2) \<Rightarrow> Some (o1 @ o2, e2)))"
  by (induction xs arbitrary: e) (auto split: option.splits)

lemma decode_calls_length:
  "decode_calls demux e cs = Some (outs, e') \<Longrightarrow> length outs = length cs"
  by (induction cs arbitrary: e outs) (auto split: option.splits)

lemma host_okD:
  "host_ok n c \<Longrightarrow>
   fst (call_get_buffer c x f) = 0 \<and> n \<le> length (data0 (snd (call_get_buffer c x f)))"
  by (simp add: host_ok_def)

lemma playable_nth:
  "playable a fs \<Longrightarrow> i < length fs \<Longrightarrow> nat (canvas_bytes a) \<le> length (fst (fs ! i))"
  by (simp add: playable_def list_all_length)

lemma call_in_pass:
  assumes pl: "playing a T i j e" and ok: "playable a fs" and i: "i < length fs"
    and j: "j < unat T" and host: "host_ok (nat (canvas_bytes a)) c"
  shows "\<exists>e'. decode_libwebp_frame demux (call_get_buffer c)
                (e\<lparr>p := call_frame c, got_frame := 0\<rparr>) (call_pkt c) = Some (Ret 0, e')
           \<and> playing a T (Suc i) j e'
           \<and> sent (nat (canvas_bytes a)) (Ret 0, got_frame e', p e')
               = shown (nat (canvas_bytes a)) (fs ! i)"
proof -
  obtain rgba ts where f: "fs ! i = (rgba, ts)" by (cases "fs ! i")
  from pl have pl': "playing a T i j (e\<lparr>p := call_frame c, got_frame := 0\<rparr>)" by simp
  from playable_nth [OF ok i] f have len: "nat (canvas_bytes a) \<le> length rgba" by simp
  from ok have fr: "frames a = map Some fs" and n: "0 \<le> canvas_bytes a" "canvas_bytes a \<le> INT_MAX"
    by (simp_all add: playable_def)
  from step_in_pass [where get_buffer = "call_get_buffer c", OF pl' fr i f j n len host_okD [OF host]]
  show ?thesis by (simp add: shown_def f)
qed

lemma call_wrap:
  assumes pl: "playing a T (length fs) j e" and ok: "playable a fs"
    and j: "Suc j < unat T" and host: "host_ok (nat (canvas_bytes a)) c"
  shows "\<exists>e'. decode_libwebp_frame demux (call_get_buffer c)
                (e\<lparr>p := call_frame c, got_frame := 0\<rparr>) (call_pkt c) = Some (Ret 0, e')
           \<and> playing a T (Suc 0) (Suc j) e'
           \<and> sent (nat (canvas_bytes a)) (Ret 0, got_frame e', p e')
               = shown (nat (canvas_bytes a)) (fs ! 0)"
proof -
  obtain rgba ts where f: "fs ! 0 = (rgba, ts)" by (cases "fs ! 0")
  from pl have pl': "playing a T (length fs) j (e\<lparr>p := call_frame c, got_frame := 0\<rparr>)" by simp
  from ok have fr: "frames a = map Some fs" "fs \<noteq> []"
    and n: "0 \<le> canvas_bytes a" "canvas_bytes a \<le> INT_MAX"
    by (simp_all add: playable_def)
  from fr(2) playable_nth [OF ok, of 0] f have len: "nat (canvas_bytes a) \<le> length rgba" by simp
  from step_wrap [where get_buffer = "call_get_buffer c", OF pl' fr f j n len host_okD [OF host]]
  show ?thesis by (simp add: shown_def f)
qed

lemma rest_of_pass:
  assumes "playing a T i j e" and "playable a fs" and "j < unat T"
    and "list_all (host_ok (nat (canvas_bytes a))) cs"
    and "i + length cs = length fs"
  shows "\<exists>outs e'. decode_calls demux e cs = Some (outs, e')
           \<and> map (sent (nat (canvas_bytes a))) outs = map (shown (nat (canvas_bytes a))) (drop i fs)
           \<and> playing a T (length fs) j e'"
  using assms
proof (induction cs arbitrary: i e)
  case Nil
  then show ?case by simp
next
  case (Cons c cs)
  then have i: "i < length fs" and host: "host_ok (nat (canvas_bytes a)) c"
    and rest: "list_all (host_ok (nat (canvas_bytes a))) cs" "Suc i + length cs = length fs"
    by simp_all
  from call_in_pass [OF Cons.prems(1,2) i Cons.prems(3) host, of demux]
  obtain e1 where e1: "decode_libwebp_frame demux (call_get_buffer c)
        (e\<lparr>p := call_frame c, got_frame := 0\<rparr>) (call_pkt c) = Some (Ret 0, e1)"
      "playing a T (Suc i) j e1"
      "sent (nat (canvas_bytes a)) (Ret 0, got_frame e1, p e1) = shown (nat (canvas_bytes a)) (fs ! i)"
    by blast
  from Cons.IH [OF e1(2) Cons.prems(2,3) rest]
  obtain outs e' where run: "decode_calls demux e1 cs = Some (outs, e')"
      "map (sent (nat (canvas_bytes a))) outs = map (shown (nat (canvas_bytes a))) (drop (Suc i) fs)"
      "playing a T (length fs) j e'"
    by blast
  from i have "drop i fs = fs ! i # drop (Suc i) fs"
    by (simp add: Cons_nth_drop_Suc)
  with e1 run show ?case by simp
qed

lemma one_pass:
  assumes pl: "playing a T (length fs) j e" and ok: "playable a fs" and j: "Suc j < unat T"
    and host: "list_all (host_ok (nat (canvas_bytes a))) cs"
    and len: "length cs = length fs"
  shows "\<exists>outs e'. decode_calls demux e cs = Some (outs, e')
           \<and> map (sent (nat (canvas_bytes a))) outs = map (shown (nat (canvas_bytes a))) fs
           \<and> playing a T (length fs) (Suc j) e'"
proof -
  from ok have ne: "fs \<noteq> []" by (simp add: playable_def)
  with len obtain c cs' where cs: "cs = c # cs'" by (cases cs) auto
  with host have hc: "host_ok (nat (canvas_bytes a)) c"
    and hcs: "list_all (host_ok (nat (canvas_bytes a))) cs'" by simp_all
  from call_wrap [OF pl ok j hc, of demux]
  obtain e1 where e1: "decode_libwebp_frame demux (call_get_buffer c)
        (e\<lparr>p := call_frame c, got_frame := 0\<rparr>) (call_pkt c) = Some (Ret 0, e1)"
      "playing a T (Suc 0) (Suc j) e1"
      "sent (nat (canvas_bytes a)) (Ret 0, got_frame e1, p e1) = shown (nat (canvas_bytes a)) (fs ! 0)"
    by blast
  from len cs have "Suc 0 + length cs' = length fs" by simp
  from rest_of_pass [OF e1(2) ok j hcs this, of demux]
  obtain outs e' where run: "decode_calls demux e1 cs' = Some (outs, e')"
      "map (sent (nat (canvas_bytes a))) outs = map (shown (nat (canvas_bytes a))) (drop (Suc 0) fs)"
      "playing a T (length fs) (Suc j) e'"
    by blast
  from ne have "fs = fs ! 0 # drop (Suc 0) fs"
    by (cases fs) simp_all
  then have "map (shown (nat (canvas_bytes a))) fs
      = shown (nat (canvas_bytes a)) (fs ! 0) # map (shown (nat (canvas_bytes a))) (drop (Suc 0) fs)"
    by (metis list.simps(9))
  with e1 run cs show ?thesis by simp
qed

lemma more_passes:
  assumes "playing a T (length fs) j e" and "playable a fs" and "j + k < unat T"
    and "list_all (host_ok (nat (canvas_bytes a))) cs"
    and "length cs = k * length fs"
  shows "\<exists>outs e'. decode_calls demux e cs = Some (outs, e')
           \<and> map (sent (nat (canvas_bytes a))) outs
               = concat (replicate k (map (shown (nat (canvas_bytes a))) fs))
           \<and> playing a T (length fs) (j + k) e'"
  using assms
proof (induction k arbitrary: j e cs)
  case 0
  then show ?case by simp
next
  case (Suc k)
  let ?n = "nat (canvas_bytes a)"
  let ?c1 = "take (length fs) cs" and ?c2 = "drop (length fs) cs"
  from Suc.prems(5) have l1: "length ?c1 = length fs" and l2: "length ?c2 = k * length fs"
    by simp_all
  from Suc.prems(4) have h1: "list_all (host_ok ?n) ?c1" and h2: "list_all (host_ok ?n) ?c2"
    by (metis append_take_drop_id list_all_append)+
  from Suc.prems(3) have j: "Suc j < unat T" and jk: "Suc j + k < unat T" by simp_all
  from one_pass [OF Suc.prems(1,2) j h1 l1, of demux]
  obtain o1 e1 where r1: "decode_calls demux e ?c1 = Some (o1, e1)"
      "map (sent ?n) o1 = map (shown ?n) fs" "playing a T (length fs) (Suc j) e1"
    by blast
  from Suc.IH [OF r1(3) Suc.prems(2) jk h2 l2]
  obtain o2 e2 where r2: "decode_calls demux e1 ?c2 = Some (o2, e2)"
      "map (sent ?n) o2 = concat (replicate k (map (shown ?n) fs))"
      "playing a T (length fs) (Suc j + k) e2"
    by blast
  have "decode_calls demux e cs = Some (o1 @ o2, e2)"
    using decode_calls_append [of demux e ?c1 ?c2] r1(1) r2(1) by simp
  with r1(2) r2(2,3) show ?case by simp
qed


lemma length_one: "length xs = 1 \<Longrightarrow> \<exists>x. xs = [x]"
  by (cases xs) auto

lemma first_call_emits:
  assumes fresh: "dec (ctx e) = None" "loop_sent (ctx e) = 0"
    and pkt: "0 < size_pkt (call_pkt c)" "buf (call_pkt c) = Some b"
    and dm: "demux \<lparr>bytes = data b, size_data = size_buf b\<rparr> = Some a"
    and ok: "playable a fs"
    and T: "T = (if ignore_loop (ctx e) \<noteq> 0 then 1 else loop_count (info a))" "0 < unat T"
    and host: "host_ok (nat (canvas_bytes a)) c"
  shows "\<exists>e'. decode_libwebp_frame demux (call_get_buffer c)
                (e\<lparr>p := call_frame c, got_frame := 0\<rparr>) (call_pkt c) = Some (Ret 0, e')
           \<and> playing a T (Suc 0) 0 e'
           \<and> sent (nat (canvas_bytes a)) (Ret 0, got_frame e', p e')
               = shown (nat (canvas_bytes a)) (fs ! 0)"
proof -
  let ?e = "e\<lparr>p := call_frame c, got_frame := 0\<rparr>"
  let ?d = "\<lparr>anim = a, next_frame = 0\<rparr>"
  from fresh have fresh': "dec (ctx ?e) = None" by simp
  from lazy_init_constructs [OF fresh' pkt, of demux a] dm fresh(2) T(1)
  obtain e1 where e1: "lazy_init demux ?e (call_pkt c) = Some (None, e1)"
      "dec (ctx e1) = Some ?d" "playing a T 0 0 e1"
      "p e1 = call_frame c" "got_frame e1 = 0"
    by (auto simp add: playing_def)
  obtain rgba ts where f: "fs ! 0 = (rgba, ts)" by (cases "fs ! 0")
  from ok have fr: "frames a = map Some fs" "0 < length fs"
    and n: "0 \<le> canvas_bytes a" "canvas_bytes a \<le> INT_MAX"
    by (simp_all add: playable_def)
  from playable_nth [OF ok fr(2)] f have len: "nat (canvas_bytes a) \<le> length rgba" by simp
  from fr have "WebPAnimDecoderHasMoreFrames ?d"
    by (simp add: WebPAnimDecoderHasMoreFrames_def)
  then have "decode_libwebp_frame demux (call_get_buffer c) ?e (call_pkt c)
      = emit_frame (call_get_buffer c) e1"
    using e1(1,2) by (simp add: step_through loop_boundary_more)
  with emit_playing [where get_buffer = "call_get_buffer c",
      OF e1(3) fr f T(2) n len host_okD [OF host]]
  show ?thesis by (simp add: shown_def f)
qed

lemma call_end:
  assumes "playing a T (length fs) j e" and "frames a = map Some fs" and "Suc j = unat T"
  shows "\<exists>e'. decode_calls demux e [c] = Some ([(AVERROR_EOF, 0, call_frame c)], e')"
proof -
  from assms(1) have "playing a T (length fs) j (e\<lparr>p := call_frame c, got_frame := 0\<rparr>)"
    by simp
  from step_end [OF this assms(2,3), of demux "call_get_buffer c" "call_pkt c"]
  show ?thesis by auto
qed

lemma session_plays:
  assumes fresh: "dec (ctx e) = None" "loop_sent (ctx e) = 0"
    and pkt: "0 < size_pkt (call_pkt c)" "buf (call_pkt c) = Some b"
    and dm: "demux \<lparr>bytes = data b, size_data = size_buf b\<rparr> = Some a"
    and ok: "playable a fs"
    and T: "T = (if ignore_loop (ctx e) \<noteq> 0 then 1 else loop_count (info a))" "0 < unat T"
    and host: "list_all (host_ok (nat (canvas_bytes a))) (c # cs)"
    and len: "length cs = unat T * length fs"
  shows "\<exists>outs e'. decode_calls demux e (c # cs) = Some (outs, e')
           \<and> length outs = unat T * length fs + 1
           \<and> map (sent (nat (canvas_bytes a))) (butlast outs)
               = concat (replicate (unat T) (map (shown (nat (canvas_bytes a))) fs))
           \<and> last outs = (AVERROR_EOF, 0, call_frame (last cs))"
proof -
  let ?n = "nat (canvas_bytes a)" and ?F = "length fs"
  let ?k = "unat T - 1"
  let ?c1 = "take (?F - 1) cs" and ?r = "drop (?F - 1) cs"
  let ?c2 = "take (?k * ?F) ?r" and ?c3 = "drop (?k * ?F) ?r"
  from ok have ne: "fs \<noteq> []" and fr: "frames a = map Some fs"
    by (simp_all add: playable_def)
  then have F: "0 < ?F" by simp
  from T(2) have total: "unat T * ?F = ?F + ?k * ?F"
    by (cases "unat T") simp_all
  define m where "m = ?k * ?F"
  from total len F have lcs: "length cs = ?F + m" and F': "Suc 0 \<le> ?F"
    by (simp_all add: m_def Suc_leI)
  then have "Suc 0 + length (take (?F - 1) cs) = ?F"
    and "length (take m (drop (?F - 1) cs)) = m"
    and "length (drop m (drop (?F - 1) cs)) = 1"
    by simp_all
  then have l1: "Suc 0 + length ?c1 = ?F" and l2: "length ?c2 = ?k * ?F"
    and l3: "length ?c3 = 1"
    by (simp_all only: m_def)
  from length_one [OF l3] obtain cl where c3: "?c3 = [cl]" ..
  have split: "cs = ?c1 @ ?c2 @ ?c3" by (simp only: append_take_drop_id)
  with c3 have cs: "cs = ?c1 @ ?c2 @ [cl]" by simp
  then have last: "last cs = cl"
    by (metis last_appendR last_snoc list.distinct(1) append_is_Nil_conv)
  from host have hc: "host_ok ?n c" and hcs: "list_all (host_ok ?n) cs" by simp_all
  from hcs have h1: "list_all (host_ok ?n) ?c1" and hr: "list_all (host_ok ?n) ?r"
    by (metis append_take_drop_id list_all_append)+
  from hr have h2: "list_all (host_ok ?n) ?c2"
    by (metis append_take_drop_id list_all_append)
  from first_call_emits [where demux = demux, OF fresh pkt dm ok T hc]
  obtain e1 where e1: "decode_libwebp_frame demux (call_get_buffer c)
        (e\<lparr>p := call_frame c, got_frame := 0\<rparr>) (call_pkt c) = Some (Ret 0, e1)"
      "playing a T (Suc 0) 0 e1"
      "sent ?n (Ret 0, got_frame e1, p e1) = shown ?n (fs ! 0)"
    by blast
  from rest_of_pass [OF e1(2) ok T(2) h1 l1, of demux]
  obtain o1 e2 where r1: "decode_calls demux e1 ?c1 = Some (o1, e2)"
      "map (sent ?n) o1 = map (shown ?n) (drop (Suc 0) fs)" "playing a T ?F 0 e2"
    by blast
  from T(2) have "0 + ?k < unat T" by simp
  from more_passes [OF r1(3) ok this h2 l2, of demux]
  obtain o2 e3 where r2: "decode_calls demux e2 ?c2 = Some (o2, e3)"
      "map (sent ?n) o2 = concat (replicate ?k (map (shown ?n) fs))"
      "playing a T ?F (0 + ?k) e3"
    by blast
  from T(2) have "Suc (0 + ?k) = unat T" by simp
  from call_end [OF r2(3) fr this, of demux cl]
  obtain e4 where r3: "decode_calls demux e3 [cl] = Some ([(AVERROR_EOF, 0, call_frame cl)], e4)"
    by blast
  have "decode_calls demux e1 (?c1 @ ?c2 @ [cl])
      = Some (o1 @ o2 @ [(AVERROR_EOF, 0, call_frame cl)], e4)"
    using r1(1) r2(1) r3 by (simp add: decode_calls_append)
  with cs have rest: "decode_calls demux e1 cs
      = Some (o1 @ o2 @ [(AVERROR_EOF, 0, call_frame cl)], e4)"
    by simp
  let ?outs = "(Ret 0, got_frame e1, p e1) # o1 @ o2 @ [(AVERROR_EOF, 0, call_frame cl)]"
  from e1(1) rest have run: "decode_calls demux e (c # cs) = Some (?outs, e4)"
    by simp
  from ne have "fs = fs ! 0 # drop (Suc 0) fs"
    by (cases fs) simp_all
  then have pass: "map (shown ?n) fs = shown ?n (fs ! 0) # map (shown ?n) (drop (Suc 0) fs)"
    by (metis list.simps(9))
  have bl: "butlast ?outs = (Ret 0, got_frame e1, p e1) # o1 @ o2"
    by (simp add: butlast_append)
  from T(2) have "replicate (unat T) (map (shown ?n) fs)
      = map (shown ?n) fs # replicate ?k (map (shown ?n) fs)"
    by (cases "unat T") simp_all
  then have "concat (replicate (unat T) (map (shown ?n) fs))
      = shown ?n (fs ! 0) # map (shown ?n) (drop (Suc 0) fs)
          @ concat (replicate ?k (map (shown ?n) fs))"
    using pass by simp
  with e1(3) r1(2) r2(2) bl
  have frames_out: "map (sent ?n) (butlast ?outs) = concat (replicate (unat T) (map (shown ?n) fs))"
    by simp
  from decode_calls_length [OF run] len have count: "length ?outs = unat T * ?F + 1"
    by simp
  have "last ?outs = (AVERROR_EOF, 0, call_frame (last cs))"
    using last by simp
  with run frames_out count show ?thesis by blast
qed


subsection \<open>What a call keeps\<close>

lemma emit_frame_keeps:
  assumes "emit_frame get_buffer e = Some (r, e')"
  shows "heap e' = heap e
       \<and> AVCodecContext.width (avctx e') = AVCodecContext.width (avctx e)
       \<and> AVCodecContext.height (avctx e') = AVCodecContext.height (avctx e)
       \<and> loop_to_send (ctx e') = loop_to_send (ctx e)
       \<and> loop_sent (ctx e') = loop_sent (ctx e)
       \<and> ignore_loop (ctx e') = ignore_loop (ctx e)
       \<and> file_content (ctx e') = file_content (ctx e)"
  using assms
  by (auto simp add: emit_frame_def Let_def split: if_splits option.splits prod.splits)

lemma GetNext_anim:
  "WebPAnimDecoderGetNext d = Some (frame_rgba, timestamp_ms, d') \<Longrightarrow>
   anim d' = anim d \<and> next_frame d' = Suc (next_frame d)
   \<and> next_frame d < length (frames (anim d))
   \<and> frames (anim d) ! next_frame d = Some (frame_rgba, timestamp_ms)"
  by (auto simp add: WebPAnimDecoderGetNext_def WebPAnimDecoderHasMoreFrames_def
      split: if_splits option.splits)

lemma emit_frame_dec:
  assumes "emit_frame get_buffer e = Some (r, e')" and "dec (ctx e) = Some d"
  shows "\<exists>d'. dec (ctx e') = Some d' \<and> anim d' = anim d"
  using assms
  by (auto simp add: emit_frame_def Let_def  dest: GetNext_anim
      split: if_splits option.splits prod.splits)

lemma emit_frame_error:
  assumes "emit_frame get_buffer e = Some (r, e')" and "\<forall>x. r \<noteq> Ret x"
  shows "got_frame e' = got_frame e"
  using assms
  by (auto simp add: emit_frame_def Let_def split: if_splits option.splits prod.splits)

text \<open>A call on a session that holds a Frame Source.\<close>

lemma step_keeps:
  assumes "decode_libwebp_frame demux get_buffer e avpkt = Some (r, e')"
    and "dec (ctx e) = Some d"
  shows "heap e' = heap e
       \<and> AVCodecContext.width (avctx e') = AVCodecContext.width (avctx e)
       \<and> AVCodecContext.height (avctx e') = AVCodecContext.height (avctx e)
       \<and> loop_to_send (ctx e') = loop_to_send (ctx e)
       \<and> ignore_loop (ctx e') = ignore_loop (ctx e)
       \<and> file_content (ctx e') = file_content (ctx e)
       \<and> (\<exists>d'. dec (ctx e') = Some d' \<and> anim d' = anim d)"
proof -
  from assms have em: "emit_frame get_buffer (loop_boundary d e) = Some (r, e')"
    by (simp add: step_active)
  from loop_boundary_dec [OF assms(2)]
  obtain d1 where d1: "dec (ctx (loop_boundary d e)) = Some d1" "anim d1 = anim d"
    by blast
  from emit_frame_dec [OF em d1(1)] d1(2) emit_frame_keeps [OF em]
  show ?thesis by (auto simp add: loop_boundary_keeps)
qed


text \<open>A call on a session that holds no Frame Source yet.\<close>

lemma step_first:
  assumes "decode_libwebp_frame demux get_buffer e avpkt = Some (r, e')"
    and "dec (ctx e) = None"
  obtains
    (empty) "size_pkt avpkt \<le> 0" "r = AVERROR_EINVAL" "e' = e"
  | (fails) b where "0 < size_pkt avpkt" "buf avpkt = Some b"
      "demux \<lparr>bytes = data b, size_data = size_buf b\<rparr> = None"
      "r = AVERROR_ENOMEM"
      "e' = set_ctx ((ctx e)\<lparr>file_content := None,
                 webp_data := \<lparr>bytes = data b, size_data = size_buf b\<rparr>\<rparr>) e"
  | (constructs) b a e1 where "0 < size_pkt avpkt" "buf avpkt = Some b"
      "demux \<lparr>bytes = data b, size_data = size_buf b\<rparr> = Some a"
      "lazy_init demux e avpkt = Some (None, e1)"
      "dec (ctx e1) = Some \<lparr>anim = a, next_frame = 0\<rparr>"
      "decode_libwebp_frame demux get_buffer e1 avpkt = Some (r, e')"
  using assms(1)
proof (cases rule: step_cases)
  case early
  then show ?thesis
  proof (cases rule: lazy_init_cases)
    case (active d)
    with assms(2) show ?thesis by simp
  next
    case empty
    then show ?thesis using that(1) by simp
  next
    case (fails b)
    then show ?thesis using that(2) by simp
  next
    case (constructs b a)
    then show ?thesis by simp
  qed
next
  case (through e1 d)
  from through(1) show ?thesis
  proof (cases rule: lazy_init_cases)
    case (active d)
    with assms(2) show ?thesis by simp
  next
    case empty
    then show ?thesis by simp
  next
    case (fails b)
    then show ?thesis by simp
  next
    case (constructs b a)
    with through have "decode_libwebp_frame demux get_buffer e1 avpkt = Some (r, e')"
      by (simp add: step_active)
    with constructs through(1) show ?thesis using that(3) by blast
  qed
qed


lemma step_first_target:
  assumes "decode_libwebp_frame demux get_buffer e avpkt = Some (r, e')"
    and "dec (ctx e) = None"
  shows "ignore_loop (ctx e') = ignore_loop (ctx e)
       \<and> (case dec (ctx e') of
            None \<Rightarrow> loop_to_send (ctx e') = loop_to_send (ctx e)
          | Some d' \<Rightarrow> loop_to_send (ctx e') =
              (if ignore_loop (ctx e) \<noteq> 0 then 1 else loop_count (WebPAnimDecoderGetInfo d')))"
  using assms
proof (cases rule: step_first)
  case empty
  with assms(2) show ?thesis by simp
next
  case (fails b)
  with assms(2) show ?thesis by simp
next
  case (constructs b a e1)
  from lazy_init_constructs [OF assms(2) constructs(1,2), of demux a] constructs(3,4)
  have e1: "loop_to_send (ctx e1) = (if ignore_loop (ctx e) \<noteq> 0 then 1 else loop_count (info a))"
    "ignore_loop (ctx e1) = ignore_loop (ctx e)"
    by auto
  from step_keeps [OF constructs(6,5)] e1 show ?thesis
    by (auto simp add: WebPAnimDecoderGetInfo_def)
qed

text \<open>
  C6: \<open>loop_to_send\<close> is assigned in one place, line 112 of the initialization phase.
  A call that constructs the Frame Source leaves it at 1 when \<open>ignore_loop\<close> is
  set and at the declared loop count otherwise; a call on a session that already holds a
  Frame Source, and a first call that fails, leave it as it was. No call changes
  \<open>ignore_loop\<close>, and the option table gives it the default 1.
\<close>

theorem loop_target_computed_once:
  assumes "decode_libwebp_frame demux get_buffer e avpkt = Some (r, e')"
  shows "(case dec (ctx e) of
            None \<Rightarrow>
              (case dec (ctx e') of
                 None \<Rightarrow> loop_to_send (ctx e') = loop_to_send (ctx e)
               | Some d' \<Rightarrow> loop_to_send (ctx e') =
                   (if ignore_loop (ctx e) \<noteq> 0 then 1
                    else loop_count (WebPAnimDecoderGetInfo d')))
          | Some d \<Rightarrow> loop_to_send (ctx e') = loop_to_send (ctx e))
       \<and> ignore_loop (ctx e') = ignore_loop (ctx e)
       \<and> ignore_loop alloc_context = 1
       \<and> map (\<lambda>opt. (name opt, default_val opt)) options = [(''ignore_loop'', 1)]"
proof (cases "dec (ctx e)")
  case None
  with step_first_target [OF assms None] show ?thesis
    by (simp add: alloc_context_def opt_default_def options_def)
next
  case (Some d)
  with step_keeps [OF assms Some] show ?thesis
    by (simp add: alloc_context_def opt_default_def options_def)
qed

text \<open>
  C7: for a call that gets past the initialization phase and past the end-of-stream test
  (\<open>e2\<close> is the state at line 131). If the Frame Source gives no frame the call
  returns \<open>AVERROR(EINVAL)\<close> and neither the frame nor \<open>got_frame\<close> has been
  touched. If \<open>ff_get_buffer\<close> returns a non-zero value the call returns
  \<open>AVERROR(ENOMEM)\<close>, \<open>got_frame\<close> is untouched and the frame is as the host
  left it: nothing is stamped and no pixel is copied.
\<close>

theorem frame_phase_errors:
  assumes "lazy_init demux e avpkt = Some (None, e1)"
    and "dec (ctx e1) = Some d0"
    and "e2 = loop_boundary d0 e1"
    and "\<not> loop_to_send (ctx e2) \<le> loop_sent (ctx e2)"
    and "dec (ctx e2) = Some d"
  shows "(WebPAnimDecoderGetNext d = None \<longrightarrow>
            decode_libwebp_frame demux get_buffer e avpkt = Some (AVERROR_EINVAL, e2)
            \<and> p e2 = p e \<and> got_frame e2 = got_frame e)
       \<and> (\<forall>frame_rgba timestamp_ms d' e3.
            WebPAnimDecoderGetNext d = Some (frame_rgba, timestamp_ms, d') \<longrightarrow>
            e3 = set_ctx ((ctx e2)\<lparr>dec := Some d'\<rparr>) e2 \<longrightarrow>
            fst (get_buffer (avctx e3) (p e)) \<noteq> 0 \<longrightarrow>
            decode_libwebp_frame demux get_buffer e avpkt
              = Some (AVERROR_ENOMEM, e3\<lparr>p := snd (get_buffer (avctx e3) (p e))\<rparr>)
            \<and> got_frame e3 = got_frame e)"
proof -
  from assms(1,2,3) have step: "decode_libwebp_frame demux get_buffer e avpkt
      = emit_frame get_buffer e2"
    by (simp add: step_through)
  from lazy_init_keeps [OF assms(1)] assms(3)
  have keep: "p e2 = p e" "got_frame e2 = got_frame e"
    by (simp_all add: loop_boundary_keeps)
  have none: "WebPAnimDecoderGetNext d = None \<longrightarrow>
            decode_libwebp_frame demux get_buffer e avpkt = Some (AVERROR_EINVAL, e2)
            \<and> p e2 = p e \<and> got_frame e2 = got_frame e"
    using emit_frame_no_frame [OF assms(4,5)] step keep by simp
  have "decode_libwebp_frame demux get_buffer e avpkt
              = Some (AVERROR_ENOMEM, e3\<lparr>p := snd (get_buffer (avctx e3) (p e))\<rparr>)
            \<and> got_frame e3 = got_frame e"
    if nxt: "WebPAnimDecoderGetNext d = Some (frame_rgba, timestamp_ms, d')"
      and e3: "e3 = set_ctx ((ctx e2)\<lparr>dec := Some d'\<rparr>) e2"
      and gb: "fst (get_buffer (avctx e3) (p e)) \<noteq> 0"
    for frame_rgba timestamp_ms d' e3
  proof -
    from gb keep have "fst (get_buffer (avctx e3) (p e2)) \<noteq> 0" by simp
    from emit_frame_no_buffer [where get_buffer = get_buffer, OF assms(4,5) nxt e3 this]
    show ?thesis using step keep e3 by simp
  qed
  with none show ?thesis by blast
qed

text \<open>
  C9: a call that produces a frame returns what \<open>ff_get_buffer\<close> returned, which is
  0, and sets \<open>got_frame\<close>. On the first call the packet is not empty, so the
  returned value is not the size of the packet that line 87 put into \<open>ret\<close>.
\<close>

theorem returns_buffer_result:
  assumes "decode_libwebp_frame demux get_buffer e avpkt = Some (Ret r, e')"
  shows "r = fst (get_buffer (avctx e') (p e)) \<and> r = 0 \<and> got_frame e' = 1
       \<and> (case dec (ctx e) of None \<Rightarrow> 0 < size_pkt avpkt \<and> r \<noteq> size_pkt avpkt | Some d \<Rightarrow> True)"
  using assms
proof (cases rule: step_cases)
  case early
  then show ?thesis
    by (cases rule: lazy_init_cases) simp_all
next
  case (through e1 d)
  from emit_frame_Ret [OF through(3)] lazy_init_keeps [OF through(1)]
  have "r = fst (get_buffer (avctx e') (p e)) \<and> r = 0 \<and> got_frame e' = 1"
    by (auto simp add: loop_boundary_keeps)
  moreover have "case dec (ctx e) of None \<Rightarrow> 0 < size_pkt avpkt | Some d \<Rightarrow> True"
    using through(1) by (cases rule: lazy_init_cases) simp_all
  ultimately show ?thesis
    by (auto split: option.splits)
qed


subsection \<open>The produced frame\<close>

lemma canvas_kept_call [simp]:
  "canvas_kept (e\<lparr>p := f, got_frame := g\<rparr>) = canvas_kept e"
  by (simp add: canvas_kept_def ctx_def split: option.splits)

lemma canvas_kept_step:
  assumes "canvas_kept e" and "decode_libwebp_frame demux get_buffer e avpkt = Some (r, e')"
  shows "canvas_kept e'"
proof (cases "dec (ctx e)")
  case (Some d)
  with step_keeps [OF assms(2) Some] assms(1) show ?thesis
    by (auto simp add: canvas_kept_def WebPAnimDecoderGetInfo_def)
next
  case None
  with assms(2) show ?thesis
  proof (cases rule: step_first)
    case empty
    with assms(1) show ?thesis by simp
  next
    case (fails b)
    with None show ?thesis by (simp add: canvas_kept_def)
  next
    case (constructs b a e1)
    from lazy_init_constructs [OF None constructs(1,2), of demux a] constructs(3,4)
    have "AVCodecContext.width (avctx e1) = sint (canvas_width (info a))"
      and "AVCodecContext.height (avctx e1) = sint (canvas_height (info a))"
      by auto
    with step_keeps [OF constructs(6,5)] show ?thesis
      by (auto simp add: canvas_kept_def WebPAnimDecoderGetInfo_def)
  qed
qed

lemma canvas_kept_calls:
  "canvas_kept e \<Longrightarrow> decode_calls demux e cs = Some (outs, e') \<Longrightarrow> canvas_kept e'"
proof (induction cs arbitrary: e outs)
  case Nil
  then show ?case by simp
next
  case (Cons c cs)
  from Cons.prems(2) obtain r e1 outs1 where
    st: "decode_libwebp_frame demux (call_get_buffer c) (e\<lparr>p := call_frame c, got_frame := 0\<rparr>)
           (call_pkt c) = Some (r, e1)"
    and run: "decode_calls demux e1 cs = Some (outs1, e')"
    by (auto split: option.splits)
  from Cons.prems(1) have "canvas_kept (e\<lparr>p := call_frame c, got_frame := 0\<rparr>)" by simp
  from canvas_kept_step [OF this st] have "canvas_kept e1" .
  from Cons.IH [OF this run] show ?case .
qed

lemma step_frame:
  assumes "canvas_kept e"
    and "decode_libwebp_frame demux get_buffer e avpkt = Some (Ret r, e')"
  shows "\<exists>d frame_rgba timestamp_ms.
           dec (ctx e') = Some d
         \<and> 0 < next_frame d \<and> next_frame d \<le> length (frames (anim d))
         \<and> frames (anim d) ! (next_frame d - 1) = Some (frame_rgba, timestamp_ms)
         \<and> AVFrame.width (p e') = sint (canvas_width (WebPAnimDecoderGetInfo d))
         \<and> AVFrame.height (p e') = sint (canvas_height (WebPAnimDecoderGetInfo d))
         \<and> format (p e') = AV_PIX_FMT_RGBA
         \<and> pts (p e') = timestamp_ms
         \<and> pkt_dts (p e') = 0
         \<and> pict_type (p e') = AV_PICTURE_TYPE_I
         \<and> 0 \<le> canvas_bytes (anim d)
         \<and> nat (canvas_bytes (anim d)) \<le> length frame_rgba
         \<and> nat (canvas_bytes (anim d)) \<le> length (data0 (p e'))
         \<and> take (nat (canvas_bytes (anim d))) (data0 (p e'))
             = take (nat (canvas_bytes (anim d))) frame_rgba
         \<and> got_frame e' = 1"
proof -
  from canvas_kept_step [OF assms] have kept: "canvas_kept e'" .
  from assms(2) obtain e1 d0 where
    em: "emit_frame get_buffer (loop_boundary d0 e1) = Some (Ret r, e')"
    by (cases rule: step_cases) (auto elim: lazy_init_cases)
  from emit_frame_Ret [OF em]
  obtain d1 frame_rgba timestamp_ms d' p1 n where
    f: "WebPAnimDecoderGetNext d1 = Some (frame_rgba, timestamp_ms, d')"
      "n = AVCodecContext.width (avctx (loop_boundary d0 e1))
             * AVCodecContext.height (avctx (loop_boundary d0 e1)) * 4"
      "0 \<le> n" "nat n \<le> length frame_rgba" "nat n \<le> length (data0 p1)"
      "e' = (set_ctx ((ctx (loop_boundary d0 e1))\<lparr>dec := Some d'\<rparr>) (loop_boundary d0 e1))
          \<lparr>p := p1\<lparr>AVFrame.width := AVCodecContext.width (avctx (loop_boundary d0 e1)),
                      AVFrame.height := AVCodecContext.height (avctx (loop_boundary d0 e1)),
                      format := AV_PIX_FMT_RGBA,
                      pts := timestamp_ms,
                      pkt_dts := 0,
                      pict_type := AV_PICTURE_TYPE_I,
                      data0 := take (nat n) frame_rgba @ drop (nat n) (data0 p1)\<rparr>,
            got_frame := 1\<rparr>"
    by blast
  from f(6) have d': "dec (ctx e') = Some d'"
    and wh: "AVCodecContext.width (avctx e') = AVCodecContext.width (avctx (loop_boundary d0 e1))"
      "AVCodecContext.height (avctx e') = AVCodecContext.height (avctx (loop_boundary d0 e1))"
    by simp_all
  with kept have dims:
    "AVCodecContext.width (avctx (loop_boundary d0 e1)) = sint (canvas_width (WebPAnimDecoderGetInfo d'))"
    "AVCodecContext.height (avctx (loop_boundary d0 e1)) = sint (canvas_height (WebPAnimDecoderGetInfo d'))"
    by (simp_all add: canvas_kept_def)
  with f(2) have n: "n = canvas_bytes (anim d')"
    by (simp add: canvas_bytes_def WebPAnimDecoderGetInfo_def)
  from GetNext_anim [OF f(1)] have pos: "0 < next_frame d'"
      "next_frame d' \<le> length (frames (anim d'))"
      "frames (anim d') ! (next_frame d' - 1) = Some (frame_rgba, timestamp_ms)"
    by simp_all
  from f(3,4,5,6) dims n have
    "AVFrame.width (p e') = sint (canvas_width (WebPAnimDecoderGetInfo d'))"
    "AVFrame.height (p e') = sint (canvas_height (WebPAnimDecoderGetInfo d'))"
    "format (p e') = AV_PIX_FMT_RGBA" "pts (p e') = timestamp_ms" "pkt_dts (p e') = 0"
    "pict_type (p e') = AV_PICTURE_TYPE_I"
    "nat (canvas_bytes (anim d')) \<le> length (data0 (p e'))"
    "take (nat (canvas_bytes (anim d'))) (data0 (p e'))
       = take (nat (canvas_bytes (anim d'))) frame_rgba"
    "got_frame e' = 1"
    by simp_all
  with d' pos n f(3,4) show ?thesis by blast
qed

text \<open>
  C3: in a session that started without a Frame Source, after any number of calls, a
  call that produces a frame leaves in it the canvas width and height of the Frame Source
  (the ones line 110 read), the RGBA format, the timestamp of the frame the Frame Source
  has just delivered, a decode timestamp of 0 and the intra picture type; the first
  width * height * 4 bytes of its buffer are the first bytes of that composited canvas.
\<close>

theorem produced_frame_stamped:
  assumes "dec (ctx e0) = None"
    and "decode_calls demux e0 cs = Some (outs, e)"
    and "decode_libwebp_frame demux get_buffer (e\<lparr>p := f, got_frame := g\<rparr>) avpkt
           = Some (Ret r, e')"
  shows "\<exists>d frame_rgba timestamp_ms.
           dec (ctx e') = Some d
         \<and> 0 < next_frame d \<and> next_frame d \<le> length (frames (anim d))
         \<and> frames (anim d) ! (next_frame d - 1) = Some (frame_rgba, timestamp_ms)
         \<and> AVFrame.width (p e') = sint (canvas_width (WebPAnimDecoderGetInfo d))
         \<and> AVFrame.height (p e') = sint (canvas_height (WebPAnimDecoderGetInfo d))
         \<and> format (p e') = AV_PIX_FMT_RGBA
         \<and> pts (p e') = timestamp_ms
         \<and> pkt_dts (p e') = 0
         \<and> pict_type (p e') = AV_PICTURE_TYPE_I
         \<and> 0 \<le> canvas_bytes (anim d)
         \<and> nat (canvas_bytes (anim d)) \<le> length frame_rgba
         \<and> nat (canvas_bytes (anim d)) \<le> length (data0 (p e'))
         \<and> take (nat (canvas_bytes (anim d))) (data0 (p e'))
             = take (nat (canvas_bytes (anim d))) frame_rgba
         \<and> got_frame e' = 1"
proof -
  from assms(1) have "canvas_kept e0" by (simp add: canvas_kept_def)
  from canvas_kept_calls [OF this assms(2)]
  have "canvas_kept (e\<lparr>p := f, got_frame := g\<rparr>)" by simp
  from step_frame [OF this assms(3)] show ?thesis .
qed


subsection \<open>Teardown\<close>

lemma owned_call [simp]:
  "owned (e\<lparr>p := f, got_frame := g\<rparr>) = owned e"
  by (simp add: owned_def ctx_def split: option.splits)

lemma owned_step:
  assumes "owned e" and "decode_libwebp_frame demux get_buffer e avpkt = Some (r, e')"
  shows "owned e'"
proof (cases "dec (ctx e)")
  case (Some d)
  with step_keeps [OF assms(2) Some] assms(1) show ?thesis
    by (auto simp add: owned_def split: option.splits)
next
  case None
  with assms(2) show ?thesis
  proof (cases rule: step_first)
    case empty
    with assms(1) show ?thesis by simp
  next
    case (fails b)
    with None assms(1) show ?thesis by (simp add: owned_def)
  next
    case (constructs b a e1)
    from lazy_init_constructs [OF None constructs(1,2), of demux a] constructs(3,4)
    have "file_content (ctx e1) = Some b" and "0 < refcount (heap e1) (buffer b)"
      and "0 < anim_decoders (heap e1)"
      by auto
    with step_keeps [OF constructs(6,5)] show ?thesis
      by (auto simp add: owned_def)
  qed
qed

lemma owned_calls:
  "owned e \<Longrightarrow> decode_calls demux e cs = Some (outs, e') \<Longrightarrow> owned e'"
proof (induction cs arbitrary: e outs)
  case Nil
  then show ?case by simp
next
  case (Cons c cs)
  from Cons.prems(2) obtain r e1 outs1 where
    st: "decode_libwebp_frame demux (call_get_buffer c) (e\<lparr>p := call_frame c, got_frame := 0\<rparr>)
           (call_pkt c) = Some (r, e1)"
    and run: "decode_calls demux e1 cs = Some (outs1, e')"
    by (auto split: option.splits)
  from Cons.prems(1) have "owned (e\<lparr>p := call_frame c, got_frame := 0\<rparr>)" by simp
  from owned_step [OF this st] have "owned e1" .
  from Cons.IH [OF this run] show ?case .
qed

lemma close_released:
  assumes "dec (ctx e) = None" and "file_content (ctx e) = None"
  shows "decode_libwebp_close e = Some (Ret 0, e)"
proof -
  from assms(2) have "(ctx e)\<lparr>file_content := None\<rparr> = ctx e"
    by (cases "ctx e") simp
  then have "set_ctx ((ctx e)\<lparr>file_content := None\<rparr>) e = e"
    by (simp only: set_ctx_ctx)
  moreover have "e\<lparr>heap := heap e\<rparr> = e"
    by simp
  ultimately show ?thesis
    using assms by (simp add: decode_libwebp_close_def av_buffer_unref_def Let_def)
qed

lemma close_owned:
  assumes "owned e"
  shows "\<exists>e1. decode_libwebp_close e = Some (Ret 0, e1)
           \<and> dec (ctx e1) = None \<and> file_content (ctx e1) = None
           \<and> refcount (heap e) =
               (case file_content (ctx e) of
                  None \<Rightarrow> refcount (heap e1)
                | Some b \<Rightarrow> (refcount (heap e1))(buffer b := refcount (heap e1) (buffer b) + 1))
           \<and> anim_decoders (heap e) =
               (case dec (ctx e) of
                  None \<Rightarrow> anim_decoders (heap e1)
                | Some d \<Rightarrow> anim_decoders (heap e1) + 1)"
  using assms
  by (auto simp add: owned_def decode_libwebp_close_def av_buffer_unref_def
      WebPAnimDecoderDelete_def Let_def split: option.splits)

text \<open>
  C8: a session that has never held a Frame Source or a payload is closed without any
  effect. After any number of decode calls the first close returns 0, takes one
  reference from the payload buffer if the session held one and destroys the Frame
  Source if the session held one, and leaves the session with neither; a second close
  returns 0 and changes nothing. No close runs into a double free.
\<close>

theorem close_releases_once:
  assumes "dec (ctx e0) = None" and "file_content (ctx e0) = None"
    and "decode_calls demux e0 cs = Some (outs, e)"
  shows "decode_libwebp_close e0 = Some (Ret 0, e0)
       \<and> (\<exists>e1. decode_libwebp_close e = Some (Ret 0, e1)
              \<and> decode_libwebp_close e1 = Some (Ret 0, e1)
              \<and> dec (ctx e1) = None \<and> file_content (ctx e1) = None
              \<and> refcount (heap e) =
                  (case file_content (ctx e) of
                     None \<Rightarrow> refcount (heap e1)
                   | Some b \<Rightarrow> (refcount (heap e1))(buffer b := refcount (heap e1) (buffer b) + 1))
              \<and> anim_decoders (heap e) =
                  (case dec (ctx e) of
                     None \<Rightarrow> anim_decoders (heap e1)
                   | Some d \<Rightarrow> anim_decoders (heap e1) + 1))"
proof -
  from assms(1,2) have "owned e0" by (simp add: owned_def)
  from owned_calls [OF this assms(3)] have "owned e" .
  from close_owned [OF this] obtain e1 where
    e1: "decode_libwebp_close e = Some (Ret 0, e1)"
      "dec (ctx e1) = None" "file_content (ctx e1) = None"
      "refcount (heap e) =
         (case file_content (ctx e) of
            None \<Rightarrow> refcount (heap e1)
          | Some b \<Rightarrow> (refcount (heap e1))(buffer b := refcount (heap e1) (buffer b) + 1))"
      "anim_decoders (heap e) =
         (case dec (ctx e) of
            None \<Rightarrow> anim_decoders (heap e1)
          | Some d \<Rightarrow> anim_decoders (heap e1) + 1)"
    by blast
  from close_released [OF e1(2,3)] e1 close_released [OF assms(1,2)]
  show ?thesis by blast
qed

subsection \<open>After the end of the stream\<close>

lemma emit_frame_EOF:
  assumes "emit_frame get_buffer e = Some (AVERROR_EOF, e')"
  shows "e' = e \<and> loop_to_send (ctx e) \<le> loop_sent (ctx e)"
  using assms
  by (auto simp add: emit_frame_def Let_def split: if_splits option.splits prod.splits)

lemma eof_state:
  assumes "decode_libwebp_frame demux get_buffer e avpkt = Some (AVERROR_EOF, e')"
    and "dec (ctx e') = Some d" and "frames (anim d) \<noteq> []"
  shows "WebPAnimDecoderHasMoreFrames d \<and> loop_to_send (ctx e') \<le> loop_sent (ctx e')"
  using assms(1)
proof (cases rule: step_cases)
  case early
  then show ?thesis by (cases rule: lazy_init_cases) simp_all
next
  case (through e1 d0)
  from emit_frame_EOF [OF through(3)]
  have e': "e' = loop_boundary d0 e1" and eof: "loop_to_send (ctx e') \<le> loop_sent (ctx e')"
    by simp_all
  from loop_boundary_dec [OF through(2)] e' assms(2,3)
  have "WebPAnimDecoderHasMoreFrames d" by auto
  with eof show ?thesis by simp
qed

lemma eof_again:
  assumes "dec (ctx e) = Some d" and "WebPAnimDecoderHasMoreFrames d"
    and "loop_to_send (ctx e) \<le> loop_sent (ctx e)"
  shows "decode_libwebp_frame demux get_buffer e avpkt = Some (AVERROR_EOF, e)"
  using assms by (simp add: step_active loop_boundary_more emit_frame_eof)

lemma eof_calls:
  assumes "dec (ctx e) = Some d" and "WebPAnimDecoderHasMoreFrames d"
    and "loop_to_send (ctx e) \<le> loop_sent (ctx e)"
  shows "decode_calls demux e cs =
           Some (map (\<lambda>c. (AVERROR_EOF, 0, call_frame c)) cs,
                 if cs = [] then e else e\<lparr>p := call_frame (last cs), got_frame := 0\<rparr>)"
  using assms
proof (induction cs arbitrary: e)
  case Nil
  then show ?case by simp
next
  case (Cons c cs)
  let ?e = "e\<lparr>p := call_frame c, got_frame := 0\<rparr>"
  from Cons.prems have q: "dec (ctx ?e) = Some d" "WebPAnimDecoderHasMoreFrames d"
    "loop_to_send (ctx ?e) \<le> loop_sent (ctx ?e)"
    by simp_all
  from eof_again [OF q] Cons.IH [OF q] show ?case by simp
qed

text \<open>
  C10: once a call has returned \<open>AVERROR_EOF\<close> on a session whose Frame Source
  has at least one frame, every later call returns \<open>AVERROR_EOF\<close> too, with
  \<open>got_frame\<close> still 0 and the frame of the host untouched, and the session stays
  exactly as the first of these calls left it: \<open>loop_sent\<close>, \<open>loop_to_send\<close>
  and the Frame Source do not change.
\<close>

theorem eof_absorbing:
  assumes "decode_libwebp_frame demux get_buffer e avpkt = Some (AVERROR_EOF, e')"
    and "dec (ctx e') = Some d" and "frames (anim d) \<noteq> []"
  shows "decode_calls demux e' cs =
           Some (map (\<lambda>c. (AVERROR_EOF, 0, call_frame c)) cs,
                 if cs = [] then e' else e'\<lparr>p := call_frame (last cs), got_frame := 0\<rparr>)"
proof -
  from eof_state [OF assms] have "WebPAnimDecoderHasMoreFrames d"
    and "loop_to_send (ctx e') \<le> loop_sent (ctx e')"
    by simp_all
  with assms(2) show ?thesis by (rule eof_calls)
qed

subsection \<open>A declared loop count of zero\<close>

lemma first_call_zero_target:
  assumes "dec (ctx e) = None" and "0 < size_pkt avpkt" and "buf avpkt = Some b"
    and "demux \<lparr>bytes = data b, size_data = size_buf b\<rparr> = Some a"
    and "ignore_loop (ctx e) = 0" and "loop_count (info a) = 0"
  shows "\<exists>e'. decode_libwebp_frame demux get_buffer e avpkt = Some (AVERROR_EOF, e')
           \<and> p e' = p e \<and> got_frame e' = got_frame e"
proof -
  from lazy_init_constructs [where demux = demux, OF assms(1-4)] assms(5,6)
  obtain e1 where e1: "lazy_init demux e avpkt = Some (None, e1)"
      "dec (ctx e1) = Some \<lparr>anim = a, next_frame = 0\<rparr>" "loop_to_send (ctx e1) = 0"
      "p e1 = p e" "got_frame e1 = got_frame e"
    by auto
  let ?e2 = "loop_boundary \<lparr>anim = a, next_frame = 0\<rparr> e1"
  from e1(3) have "loop_to_send (ctx ?e2) \<le> loop_sent (ctx ?e2)"
    by (simp add: loop_boundary_keeps)
  then have "emit_frame get_buffer ?e2 = Some (AVERROR_EOF, ?e2)"
    by (rule emit_frame_eof)
  with e1 show ?thesis
    by (simp add: step_through loop_boundary_keeps)
qed


subsection \<open>The concrete session\<close>

lemma opened_fresh:
  "dec (ctx (opened ig)) = None" "file_content (ctx (opened ig)) = None"
  "loop_sent (ctx (opened ig)) = 0" "ignore_loop (ctx (opened ig)) = ig"
  "p (opened ig) = blank" "got_frame (opened ig) = 0"
  by (simp_all add: opened_def decode_libwebp_init_def ctx_def set_ctx_def alloc_context_def
      zero_context_def Let_def)

lemma opened_call: "(opened ig)\<lparr>p := blank, got_frame := 0\<rparr> = opened ig"
  by (simp add: opened_def decode_libwebp_init_def ctx_def set_ctx_def Let_def)

lemma canvas_bytes_two_frames: "canvas_bytes (two_frames L) = 4"
  by (simp add: canvas_bytes_def two_frames_def)

lemma two_frames_playable: "playable (two_frames L) two_pictures"
  by (simp add: playable_def canvas_bytes_two_frames INT_MAX_def)
     (simp add: two_frames_def two_pictures_def)

lemma first_call_fields:
  "0 < size_pkt (call_pkt first_call)" "buf (call_pkt first_call) = Some payload"
  "call_frame first_call = blank" "call_get_buffer first_call = host_buffer"
  "call_pkt first_call = first_packet"
  by (simp_all add: first_call_def first_packet_def)

lemma next_call_fields:
  "call_frame next_call = blank" "call_get_buffer next_call = host_buffer"
  "call_pkt next_call = empty_packet"
  by (simp_all add: next_call_def)

lemma host_ok_calls: "host_ok 4 first_call" "host_ok 4 next_call"
  by (simp_all add: host_ok_def first_call_def next_call_def host_buffer_def)

lemma demux_two_frames:
  "(\<lambda>_. Some (two_frames L)) \<lparr>bytes = data payload, size_data = size_buf payload\<rparr>
     = Some (two_frames L)"
  by simp

subsection \<open>The loop bound\<close>

text \<open>
  C2: a session that holds no Frame Source and has finished no pass is given a first
  call whose packet holds an animation of at least one frame, all of which can be
  reconstructed, and then as many further calls as the passes have frames; the host
  always hands out a buffer. The number of passes is 1 when \<open>ignore_loop\<close> is set,
  whatever the declared loop count, and the declared loop count otherwise, which is then
  not 0. The calls but the last produce the frames of the pass, in order, once per pass,
  and the last call, number passes * frames + 1, returns \<open>AVERROR_EOF\<close> without a
  frame.
\<close>

theorem loop_bound_honoured:
  assumes "dec (ctx e) = None" and "loop_sent (ctx e) = 0"
    and "0 < size_pkt (call_pkt c)" and "buf (call_pkt c) = Some b"
    and "demux \<lparr>bytes = data b, size_data = size_buf b\<rparr> = Some a"
    and "playable a fs"
    and "list_all (host_ok (nat (canvas_bytes a))) (c # cs)"
    and "ignore_loop (ctx e) \<noteq> 0 \<or> loop_count (info a) \<noteq> 0"
    and "passes = (if ignore_loop (ctx e) \<noteq> 0 then 1 else unat (loop_count (info a)))"
    and "length cs = passes * length fs"
  shows "\<exists>outs e'. decode_calls demux e (c # cs) = Some (outs, e')
           \<and> length outs = passes * length fs + 1
           \<and> map (sent (nat (canvas_bytes a))) (butlast outs)
               = concat (replicate passes (map (shown (nat (canvas_bytes a))) fs))
           \<and> last outs = (AVERROR_EOF, 0, call_frame (last cs))"
proof -
  define T where "T = (if ignore_loop (ctx e) \<noteq> 0 then 1 else loop_count (info a))"
  with assms(9) have passes: "passes = unat T" by simp
  from assms(8) have "T \<noteq> 0" by (auto simp add: T_def)
  then have pos: "0 < unat T" by (simp add: unat_gt_0)
  from session_plays [where demux = demux, OF assms(1-6) T_def pos assms(7)] assms(10) passes
  show ?thesis by simp
qed

theorem loop_bound_honoured_witness:
  "\<exists>outs e'. decode_calls (\<lambda>_. Some (two_frames 3)) (opened 0)
                 (first_call # replicate 6 next_call) = Some (outs, e')
      \<and> length outs = 7
      \<and> map (sent 4) (butlast outs) = concat (replicate 3 (map (shown 4) two_pictures))
      \<and> last outs = (AVERROR_EOF, 0, blank)"
proof -
  have hosts: "list_all (host_ok (nat (canvas_bytes (two_frames 3))))
                 (first_call # replicate 6 next_call)"
    by (simp add: canvas_bytes_two_frames host_ok_calls list_all_iff)
  have target: "ignore_loop (ctx (opened 0)) \<noteq> 0 \<or> loop_count (info (two_frames 3)) \<noteq> 0"
    by (simp add: two_frames_def)
  have passes: "(3::nat) = (if ignore_loop (ctx (opened 0)) \<noteq> 0 then 1
                            else unat (loop_count (info (two_frames 3))))"
    by (simp add: opened_fresh two_frames_def)
  have len: "length (replicate 6 next_call) = 3 * length two_pictures"
    by (simp add: two_pictures_def)
  from loop_bound_honoured [where demux = "\<lambda>_. Some (two_frames 3)",
      OF opened_fresh(1,3) first_call_fields(1,2) demux_two_frames two_frames_playable
        hosts target passes len]
  show ?thesis
    by (simp add: canvas_bytes_two_frames two_pictures_def next_call_fields)
qed



subsection \<open>A session that has just been opened\<close>

lemma decode_libwebp_init_fresh:
  assumes "decode_libwebp_init options_init e = (Ret r, e')" and "dec (ctx e) = None"
  shows "dec (ctx e') = None \<and> file_content (ctx e') = None \<and> loop_sent (ctx e') = 0
       \<and> ignore_loop (ctx e') = ignore_loop (ctx e)"
  using assms
  by (auto simp add: decode_libwebp_init_def Let_def ctx_def set_ctx_def split: option.splits)

subsection \<open>The claims on the concrete session\<close>

lemma first_call_holds:
  assumes "decode_libwebp_frame demux get_buffer e avpkt = Some (r, e')"
    and "dec (ctx e) = None" and "0 < size_pkt avpkt" and "buf avpkt = Some b"
    and "demux \<lparr>bytes = data b, size_data = size_buf b\<rparr> = Some a"
  shows "file_content (ctx e') = Some b
       \<and> refcount (heap e') = (refcount (heap e))(buffer b := refcount (heap e) (buffer b) + 1)
       \<and> anim_decoders (heap e') = anim_decoders (heap e) + 1
       \<and> (\<exists>d. dec (ctx e') = Some d \<and> anim d = a)"
proof -
  from lazy_init_constructs [where demux = demux, OF assms(2-5)]
  obtain e1 where e1: "lazy_init demux e avpkt = Some (None, e1)"
      "dec (ctx e1) = Some \<lparr>anim = a, next_frame = 0\<rparr>"
      "file_content (ctx e1) = Some b"
      "refcount (heap e1) = (refcount (heap e))(buffer b := refcount (heap e) (buffer b) + 1)"
      "anim_decoders (heap e1) = anim_decoders (heap e) + 1"
    by blast
  from assms(1) e1(1,2) have "decode_libwebp_frame demux get_buffer e1 avpkt = Some (r, e')"
    by (simp add: step_through step_active)
  from step_keeps [OF this e1(2)] e1(3-5) show ?thesis by auto
qed

lemma first_frame:
  "\<exists>e'. decode_libwebp_frame (\<lambda>_. Some (two_frames L)) host_buffer (opened ig) first_packet
            = Some (Ret 0, e')
      \<and> playing (two_frames L) (if ig \<noteq> 0 then 1 else L) (Suc 0) 0 e'
      \<and> got_frame e' = 1 \<and> pts (p e') = 0"
  if "ig \<noteq> 0 \<or> L \<noteq> 0"
proof -
  let ?T = "if ig \<noteq> 0 then 1 else L"
  have T: "?T = (if ignore_loop (ctx (opened ig)) \<noteq> 0 then 1 else loop_count (info (two_frames L)))"
    by (simp add: opened_fresh two_frames_def)
  from that have pos: "0 < unat ?T" by (auto simp add: unat_gt_0)
  have host: "host_ok (nat (canvas_bytes (two_frames L))) first_call"
    by (simp add: canvas_bytes_two_frames host_ok_calls)
  from first_call_emits [where demux = "\<lambda>_. Some (two_frames L)",
      OF opened_fresh(1,3) first_call_fields(1,2) demux_two_frames two_frames_playable T pos host]
  show ?thesis
    by (auto simp add: first_call_fields opened_call sent_def shown_def two_pictures_def)
qed

theorem returns_buffer_result_witness:
  "\<exists>e'. decode_libwebp_frame (\<lambda>_. Some (two_frames 3)) host_buffer (opened 0) first_packet
            = Some (Ret 0, e')
      \<and> (0::int) = fst (host_buffer (avctx e') (p (opened 0))) \<and> got_frame e' = 1
      \<and> 0 < size_pkt first_packet \<and> (0::int) \<noteq> size_pkt first_packet"
proof -
  from first_frame [of 0 3] obtain e' where
    st: "decode_libwebp_frame (\<lambda>_. Some (two_frames 3)) host_buffer (opened 0) first_packet
           = Some (Ret 0, e')"
    by auto
  from returns_buffer_result [OF st] st show ?thesis
    by (auto simp add: opened_fresh)
qed

theorem loop_target_computed_once_witness:
  "\<exists>e' e''. decode_libwebp_frame (\<lambda>_. Some (two_frames 3)) host_buffer (opened 0) first_packet
            = Some (Ret 0, e')
      \<and> loop_to_send (ctx e') = 3
      \<and> decode_libwebp_frame (\<lambda>_. Some (two_frames 3)) host_buffer e' empty_packet
            = Some (Ret 0, e'')
      \<and> loop_to_send (ctx e'') = 3
      \<and> ignore_loop (ctx e'') = 0
      \<and> ignore_loop alloc_context = 1"
proof -
  let ?D = "\<lambda>_. Some (two_frames 3)"
  from first_frame [of 0 3] obtain e' where
    st: "decode_libwebp_frame ?D host_buffer (opened 0) first_packet = Some (Ret 0, e')"
    and pl: "playing (two_frames 3) 3 (Suc 0) 0 e'"
    by auto
  from pl have d: "dec (ctx e') = Some \<lparr>anim = two_frames 3, next_frame = Suc 0\<rparr>"
    by (simp add: playing_def)
  have "\<exists>e''. decode_libwebp_frame ?D host_buffer e' empty_packet = Some (Ret 0, e'')"
    using step_in_pass [where get_buffer = host_buffer and demux = ?D and avpkt = empty_packet
        and fs = two_pictures and rgba = "[5, 6, 7, 8]" and ts = 100, OF pl]
    by (auto simp add: two_frames_def two_pictures_def canvas_bytes_def INT_MAX_def
        host_buffer_def)
  then obtain e'' where
    st2: "decode_libwebp_frame ?D host_buffer e' empty_packet = Some (Ret 0, e'')"
    by blast
  from loop_target_computed_once [OF st] d
  have t1: "loop_to_send (ctx e') = 3" and ig: "ignore_loop (ctx e') = 0"
    and dflt: "ignore_loop alloc_context = 1"
    by (simp_all add: opened_fresh WebPAnimDecoderGetInfo_def two_frames_def)
  from loop_target_computed_once [OF st2] d t1 ig
  have "loop_to_send (ctx e'') = 3" and "ignore_loop (ctx e'') = 0"
    by simp_all
  with st st2 t1 dflt show ?thesis by blast
qed


lemma second_frame:
  assumes "playing (two_frames L) T (Suc 0) 0 e" and "0 < unat T"
  shows "\<exists>e'. decode_libwebp_frame (\<lambda>_. Some (two_frames L)) host_buffer
               (e\<lparr>p := blank, got_frame := 0\<rparr>) empty_packet = Some (Ret 0, e')
           \<and> playing (two_frames L) T (Suc (Suc 0)) 0 e'
           \<and> got_frame e' = 1 \<and> pts (p e') = 100
           \<and> take 4 (data0 (p e')) = [5, 6, 7, 8]"
proof -
  have host: "host_ok (nat (canvas_bytes (two_frames L))) next_call"
    by (simp add: canvas_bytes_two_frames host_ok_calls)
  have i: "Suc 0 < length two_pictures"
    by (simp add: two_pictures_def)
  from call_in_pass [where demux = "\<lambda>_. Some (two_frames L)",
      OF assms(1) two_frames_playable i assms(2) host]
  show ?thesis
    by (auto simp add: next_call_fields sent_def shown_def two_pictures_def
        canvas_bytes_two_frames)
qed

theorem produced_frame_stamped_witness:
  "\<exists>outs e e' d.
      decode_calls (\<lambda>_. Some (two_frames 3)) (opened 0) [first_call] = Some (outs, e)
    \<and> decode_libwebp_frame (\<lambda>_. Some (two_frames 3)) host_buffer
          (e\<lparr>p := blank, got_frame := 0\<rparr>) empty_packet = Some (Ret 0, e')
    \<and> dec (ctx e') = Some d
    \<and> AVFrame.width (p e') = sint (canvas_width (WebPAnimDecoderGetInfo d))
    \<and> AVFrame.height (p e') = sint (canvas_height (WebPAnimDecoderGetInfo d))
    \<and> AVFrame.width (p e') = 1 \<and> AVFrame.height (p e') = 1
    \<and> format (p e') = AV_PIX_FMT_RGBA
    \<and> pts (p e') = 100
    \<and> pkt_dts (p e') = 0
    \<and> pict_type (p e') = AV_PICTURE_TYPE_I
    \<and> take 4 (data0 (p e')) = [5, 6, 7, 8]
    \<and> got_frame e' = 1"
proof -
  let ?D = "\<lambda>_. Some (two_frames 3)"
  from first_frame [of 0 3] obtain e where
    st: "decode_libwebp_frame ?D host_buffer (opened 0) first_packet = Some (Ret 0, e)"
    and pl: "playing (two_frames 3) 3 (Suc 0) 0 e"
    by auto
  from st have run: "decode_calls ?D (opened 0) [first_call]
      = Some ([(Ret 0, got_frame e, p e)], e)"
    by (simp add: first_call_fields opened_call)
  from second_frame [OF pl] obtain e' where
    st2: "decode_libwebp_frame ?D host_buffer (e\<lparr>p := blank, got_frame := 0\<rparr>) empty_packet
            = Some (Ret 0, e')"
    and pl2: "playing (two_frames 3) 3 (Suc (Suc 0)) 0 e'"
    and px: "pts (p e') = 100" "take 4 (data0 (p e')) = [5, 6, 7, 8]"
    by auto
  from pl2 have d: "dec (ctx e') = Some \<lparr>anim = two_frames 3, next_frame = Suc (Suc 0)\<rparr>"
    by (simp add: playing_def)
  from produced_frame_stamped [OF opened_fresh(1) run st2] d
  have "AVFrame.width (p e') = sint (canvas_width (WebPAnimDecoderGetInfo
            \<lparr>anim = two_frames 3, next_frame = Suc (Suc 0)\<rparr>))"
    and "AVFrame.height (p e') = sint (canvas_height (WebPAnimDecoderGetInfo
            \<lparr>anim = two_frames 3, next_frame = Suc (Suc 0)\<rparr>))"
    and "format (p e') = AV_PIX_FMT_RGBA" and "pkt_dts (p e') = 0"
    and "pict_type (p e') = AV_PICTURE_TYPE_I" and "got_frame e' = 1"
    by auto
  moreover have "sint (canvas_width (WebPAnimDecoderGetInfo
            \<lparr>anim = two_frames 3, next_frame = Suc (Suc 0)\<rparr>)) = 1"
    and "sint (canvas_height (WebPAnimDecoderGetInfo
            \<lparr>anim = two_frames 3, next_frame = Suc (Suc 0)\<rparr>)) = 1"
    by (simp_all add: WebPAnimDecoderGetInfo_def two_frames_def)
  ultimately show ?thesis
    using run st2 d px by auto
qed

theorem close_releases_once_witness:
  "decode_libwebp_close (opened 0) = Some (Ret 0, opened 0)
   \<and> (\<exists>outs e e1.
         decode_calls (\<lambda>_. Some (two_frames 3)) (opened 0) [first_call] = Some (outs, e)
       \<and> decode_libwebp_close e = Some (Ret 0, e1)
       \<and> decode_libwebp_close e1 = Some (Ret 0, e1)
       \<and> dec (ctx e1) = None \<and> file_content (ctx e1) = None
       \<and> refcount (heap e) 7 = 2 \<and> refcount (heap e1) 7 = 1
       \<and> anim_decoders (heap e) = 1 \<and> anim_decoders (heap e1) = 0)"
proof -
  let ?D = "\<lambda>_. Some (two_frames 3)"
  from first_frame [of 0 3] obtain e where
    st: "decode_libwebp_frame ?D host_buffer (opened 0) first_packet = Some (Ret 0, e)"
    by auto
  from st have run: "decode_calls ?D (opened 0) [first_call]
      = Some ([(Ret 0, got_frame e, p e)], e)"
    by (simp add: first_call_fields opened_call)
  have pk: "0 < size_pkt first_packet" "buf first_packet = Some payload"
    by (simp_all add: first_packet_def)
  from first_call_holds [OF st opened_fresh(1) pk demux_two_frames]
  have held: "file_content (ctx e) = Some payload"
    "refcount (heap e) 7 = 2" "anim_decoders (heap e) = 1" "dec (ctx e) \<noteq> None"
    by (auto simp add: payload_def opened_def decode_libwebp_init_def set_ctx_def Let_def)
  note closes = close_releases_once [OF opened_fresh(1,2) run]
  from closes have c0: "decode_libwebp_close (opened 0) = Some (Ret 0, opened 0)"
    by (rule conjunct1)
  from closes [THEN conjunct2] obtain e1 where
    e1: "decode_libwebp_close e = Some (Ret 0, e1)"
      "decode_libwebp_close e1 = Some (Ret 0, e1)"
      "dec (ctx e1) = None" "file_content (ctx e1) = None"
    and rc: "refcount (heap e) =
        (case file_content (ctx e) of
           None \<Rightarrow> refcount (heap e1)
         | Some b \<Rightarrow> (refcount (heap e1))(buffer b := refcount (heap e1) (buffer b) + 1))"
    and ad: "anim_decoders (heap e) =
        (case dec (ctx e) of
           None \<Rightarrow> anim_decoders (heap e1)
         | Some d \<Rightarrow> anim_decoders (heap e1) + 1)"
    by blast
  from fun_cong [OF rc, of 7] held(1,2) have r1: "refcount (heap e1) 7 = 1"
    by (simp add: payload_def)
  from held(4) obtain d where "dec (ctx e) = Some d" by auto
  with ad held(3) have a1: "anim_decoders (heap e1) = 0"
    by simp
  from c0 run e1 held(2,3) r1 a1 show ?thesis by blast
qed


theorem frame_phase_errors_witness:
  "(\<exists>e'. decode_libwebp_frame (\<lambda>_. Some broken_frame) host_buffer (opened 0) first_packet
             = Some (AVERROR_EINVAL, e')
        \<and> p e' = blank \<and> got_frame e' = 0)
   \<and> (\<exists>e'. decode_libwebp_frame (\<lambda>_. Some (two_frames 3)) no_buffer (opened 0) first_packet
             = Some (AVERROR_ENOMEM, e')
        \<and> p e' = blank \<and> got_frame e' = 0)"
proof -
  have pk: "0 < size_pkt first_packet" "buf first_packet = Some payload"
    by (simp_all add: first_packet_def)
  have first: "\<exists>e1. lazy_init (\<lambda>_. Some a) (opened 0) first_packet = Some (None, e1)
      \<and> dec (ctx e1) = Some \<lparr>anim = a, next_frame = 0\<rparr>
      \<and> loop_to_send (ctx e1) = loop_count (info a) \<and> loop_sent (ctx e1) = 0
      \<and> p e1 = blank \<and> got_frame e1 = 0" for a
    using lazy_init_constructs [where demux = "\<lambda>_. Some a" and a = a and e = "opened 0",
        OF opened_fresh(1) pk]
    by (auto simp add: opened_fresh)
  have broken: "\<exists>e'. decode_libwebp_frame (\<lambda>_. Some broken_frame) host_buffer (opened 0)
        first_packet = Some (AVERROR_EINVAL, e') \<and> p e' = blank \<and> got_frame e' = 0"
  proof -
    let ?d = "\<lparr>anim = broken_frame, next_frame = 0\<rparr>"
    from first [of broken_frame] obtain e1 where
      e1: "lazy_init (\<lambda>_. Some broken_frame) (opened 0) first_packet = Some (None, e1)"
        "dec (ctx e1) = Some ?d" "loop_to_send (ctx e1) = loop_count (info broken_frame)"
        "loop_sent (ctx e1) = 0"
      by blast
    have more: "WebPAnimDecoderHasMoreFrames ?d"
      by (simp add: WebPAnimDecoderHasMoreFrames_def broken_frame_def)
    then have e2: "e1 = loop_boundary ?d e1"
      by (simp add: loop_boundary_more)
    from e1(3,4) have not_eof: "\<not> loop_to_send (ctx e1) \<le> loop_sent (ctx e1)"
      by (simp add: broken_frame_def)
    have none: "WebPAnimDecoderGetNext ?d = None"
      by (simp add: WebPAnimDecoderGetNext_def WebPAnimDecoderHasMoreFrames_def broken_frame_def)
    from frame_phase_errors [where get_buffer = host_buffer, OF e1(1,2) e2 not_eof e1(2)] none
    show ?thesis by (simp add: opened_fresh)
  qed
  have starved: "\<exists>e'. decode_libwebp_frame (\<lambda>_. Some (two_frames 3)) no_buffer (opened 0)
        first_packet = Some (AVERROR_ENOMEM, e') \<and> p e' = blank \<and> got_frame e' = 0"
  proof -
    let ?d = "\<lparr>anim = two_frames 3, next_frame = 0\<rparr>"
    let ?d' = "\<lparr>anim = two_frames 3, next_frame = Suc 0\<rparr>"
    from first [of "two_frames 3"] obtain e1 where
      e1: "lazy_init (\<lambda>_. Some (two_frames 3)) (opened 0) first_packet = Some (None, e1)"
        "dec (ctx e1) = Some ?d" "loop_to_send (ctx e1) = loop_count (info (two_frames 3))"
        "loop_sent (ctx e1) = 0"
      by blast
    let ?e3 = "set_ctx ((ctx e1)\<lparr>dec := Some ?d'\<rparr>) e1"
    have more: "WebPAnimDecoderHasMoreFrames ?d"
      by (simp add: WebPAnimDecoderHasMoreFrames_def two_frames_def two_pictures_def)
    then have e2: "e1 = loop_boundary ?d e1"
      by (simp add: loop_boundary_more)
    from e1(3,4) have not_eof: "\<not> loop_to_send (ctx e1) \<le> loop_sent (ctx e1)"
      by (simp add: two_frames_def)
    have some: "WebPAnimDecoderGetNext ?d = Some ([1, 2, 3, 4], 0, ?d')"
      by (simp add: WebPAnimDecoderGetNext_def WebPAnimDecoderHasMoreFrames_def two_frames_def
          two_pictures_def)
    have no: "fst (no_buffer (avctx ?e3) (p (opened 0))) \<noteq> 0"
      by (simp add: no_buffer_def)
    from frame_phase_errors [where get_buffer = no_buffer, OF e1(1,2) e2 not_eof e1(2)]
    have "decode_libwebp_frame (\<lambda>_. Some (two_frames 3)) no_buffer (opened 0) first_packet
        = Some (AVERROR_ENOMEM, ?e3\<lparr>p := snd (no_buffer (avctx ?e3) (p (opened 0)))\<rparr>)
      \<and> got_frame ?e3 = got_frame (opened 0)"
      using some no by blast
    then show ?thesis by (simp add: no_buffer_def opened_fresh)
  qed
  from broken starved show ?thesis by blast
qed

theorem eof_absorbing_witness:
  "\<exists>e1 e2 e3.
      decode_libwebp_frame (\<lambda>_. Some (two_frames 3)) host_buffer (opened 1) first_packet
        = Some (Ret 0, e1)
    \<and> decode_libwebp_frame (\<lambda>_. Some (two_frames 3)) host_buffer
          (e1\<lparr>p := blank, got_frame := 0\<rparr>) empty_packet = Some (Ret 0, e2)
    \<and> decode_libwebp_frame (\<lambda>_. Some (two_frames 3)) host_buffer
          (e2\<lparr>p := blank, got_frame := 0\<rparr>) empty_packet = Some (AVERROR_EOF, e3)
    \<and> decode_calls (\<lambda>_. Some (two_frames 3)) e3 [next_call, next_call]
        = Some ([(AVERROR_EOF, 0, blank), (AVERROR_EOF, 0, blank)],
                e3\<lparr>p := blank, got_frame := 0\<rparr>)"
proof -
  let ?D = "\<lambda>_. Some (two_frames 3)"
  from first_frame [of 1 3] obtain e1 where
    s1: "decode_libwebp_frame ?D host_buffer (opened 1) first_packet = Some (Ret 0, e1)"
    and p1: "playing (two_frames 3) 1 (Suc 0) 0 e1"
    by auto
  from second_frame [OF p1] obtain e2 where
    s2: "decode_libwebp_frame ?D host_buffer (e1\<lparr>p := blank, got_frame := 0\<rparr>) empty_packet
           = Some (Ret 0, e2)"
    and p2: "playing (two_frames 3) 1 (Suc (Suc 0)) 0 e2"
    by auto
  from p2 have p2': "playing (two_frames 3) 1 (length two_pictures) 0
      (e2\<lparr>p := blank, got_frame := 0\<rparr>)"
    by (simp add: two_pictures_def)
  have fr: "frames (two_frames 3) = map Some two_pictures"
    by (simp add: two_frames_def)
  from step_end [where demux = ?D and get_buffer = host_buffer and avpkt = empty_packet,
      OF p2' fr]
  obtain e3 where
    s3: "decode_libwebp_frame ?D host_buffer (e2\<lparr>p := blank, got_frame := 0\<rparr>) empty_packet
           = Some (AVERROR_EOF, e3)"
    by auto
  from p2' have "dec (ctx (e2\<lparr>p := blank, got_frame := 0\<rparr>))
      = Some \<lparr>anim = two_frames 3, next_frame = length two_pictures\<rparr>"
    by (simp add: playing_def)
  from step_keeps [OF s3 this] obtain d where
    d: "dec (ctx e3) = Some d" "anim d = two_frames 3"
    by auto
  then have ne: "frames (anim d) \<noteq> []"
    by (simp add: two_frames_def two_pictures_def)
  from eof_absorbing [OF s3 d(1) ne, of "[next_call, next_call]"] s1 s2 s3
  show ?thesis
    by (simp add: next_call_fields)
qed

subsection \<open>A declared loop count of zero, on the concrete session\<close>

text \<open>
  C1: the claim is that a session with a declared loop count of 0 and
  \<open>ignore_loop\<close> off never ends by the comparison of line 125. The code has no case
  for the value 0: \<open>loop_to_send\<close> becomes 0 and \<open>loop_sent >= 0\<close> holds for
  every \<open>uint32_t\<close>, so the first call, with two frames still to read, returns
  \<open>AVERROR_EOF\<close> without a frame, and so does every later call.
\<close>

theorem zero_loop_count_ends_at_once:
  "map_option (map (\<lambda>(r, g, f). (r, g)) \<circ> fst)
     (decode_calls (\<lambda>_. Some (two_frames 0)) (opened 0) [first_call, next_call, next_call])
   = Some [(AVERROR_EOF, 0), (AVERROR_EOF, 0), (AVERROR_EOF, 0)]"
proof -
  let ?D = "\<lambda>_. Some (two_frames 0)"
  have pk: "0 < size_pkt first_packet" "buf first_packet = Some payload"
    by (simp_all add: first_packet_def)
  have zero: "loop_count (info (two_frames 0)) = 0"
    by (simp add: two_frames_def)
  from first_call_zero_target [where demux = ?D and get_buffer = host_buffer,
      OF opened_fresh(1) pk demux_two_frames opened_fresh(4) zero]
  obtain e1 where
    s1: "decode_libwebp_frame ?D host_buffer (opened 0) first_packet = Some (AVERROR_EOF, e1)"
    and g1: "got_frame e1 = 0"
    by (auto simp add: opened_fresh)
  from first_call_holds [OF s1 opened_fresh(1) pk demux_two_frames]
  obtain d where d: "dec (ctx e1) = Some d" "anim d = two_frames 0"
    by auto
  then have ne: "frames (anim d) \<noteq> []"
    by (simp add: two_frames_def two_pictures_def)
  from eof_state [OF s1 d(1) ne]
  have "decode_calls ?D e1 [next_call, next_call]
      = Some (map (\<lambda>c. (AVERROR_EOF, 0, call_frame c)) [next_call, next_call],
              if [next_call, next_call] = [] then e1
              else e1\<lparr>p := call_frame (last [next_call, next_call]), got_frame := 0\<rparr>)"
    by (intro eof_calls [OF d(1)]) simp_all
  with s1 g1 show ?thesis
    by (simp add: first_call_fields opened_call)
qed


end
